theory Spec2Isabelle
  imports Complex_Main "HOL-Library.AList"
begin

section \<open>Python values and exceptions\<close>

text \<open>
  The client (\<^verbatim>\<open>api.py\<close>, class \<^verbatim>\<open>AdminisLocuinteAPI\<close>) is modelled with
  explicit state passing. Every \<^verbatim>\<open>raise\<close> of the source and every exception of a
  built-in operation it uses is a value of \<open>py_error\<close>; a computation that may raise
  returns \<open>py_error + 'a\<close> with \<open>Inl\<close> for the exception.

  Strings are \<open>char list\<close>. A Python \<^verbatim>\<open>float\<close> is represented by the real number it
  denotes; rounding to binary64, infinities and NaN are not modelled.
\<close>

datatype py_error =
    IndexError
  | KeyError
  | AttributeError
  | TypeError
  | ValueError
  | OverflowError
  | ContentTypeError
  | ClientError
  | LoginPageFailed nat
  | FetchFailed nat

section \<open>String operations used by the discoverer\<close>

text \<open>\<^verbatim>\<open>s.startswith(p)\<close>\<close>

fun startswith :: "string \<Rightarrow> string \<Rightarrow> bool" where
  "startswith s [] = True"
| "startswith [] (p # ps) = False"
| "startswith (c # cs) (p # ps) = (c = p \<and> startswith cs ps)"

text \<open>\<^verbatim>\<open>sub in s\<close>\<close>

fun contains :: "string \<Rightarrow> string \<Rightarrow> bool" where
  "contains [] sub = (sub = [])"
| "contains (c # cs) sub = (startswith (c # cs) sub \<or> contains cs sub)"

text \<open>
  \<^verbatim>\<open>s.split(sep)\<close> for a non-empty separator: the pieces between the non-overlapping
  occurrences of \<open>sep\<close>, found from the left. \<open>cur\<close> is the piece being collected.
  (Python raises ValueError for an empty separator; the source only splits at
  \<^verbatim>\<open>", ap. "\<close> and \<^verbatim>\<open>","\<close>.)
\<close>

function split_from :: "string \<Rightarrow> string \<Rightarrow> string \<Rightarrow> string list" where
  "split_from sep cur [] = [cur]"
| "split_from sep cur (c # cs) =
     (if sep \<noteq> [] \<and> startswith (c # cs) sep
      then cur # split_from sep [] (drop (length sep) (c # cs))
      else split_from sep (cur @ [c]) cs)"
  by pat_completeness auto
termination
  by (relation "measure (\<lambda>(sep, cur, s). length s)") auto

definition split_py :: "string \<Rightarrow> string \<Rightarrow> string list" where
  "split_py s sep = split_from sep [] s"

text \<open>\<^verbatim>\<open>xs[i]\<close> for a non-negative index.\<close>

definition index_py :: "'a list \<Rightarrow> nat \<Rightarrow> py_error + 'a" where
  "index_py xs i = (if i < length xs then Inr (xs ! i) else Inl IndexError)"

text \<open>\<^verbatim>\<open>s.strip()\<close>: the ASCII characters for which \<^verbatim>\<open>str.isspace\<close> holds.\<close>

definition is_space :: "char \<Rightarrow> bool" where
  "is_space c = (c \<in> set [CHR 0x09, CHR 0x0A, CHR 0x0B, CHR 0x0C, CHR 0x0D,
                            CHR 0x1C, CHR 0x1D, CHR 0x1E, CHR 0x1F, CHR 0x20])"

definition strip :: "string \<Rightarrow> string" where
  "strip s = rev (dropWhile is_space (rev (dropWhile is_space s)))"

section \<open>The two regular expressions of the discoverer\<close>

definition dquote :: char where
  "dquote = CHR 0x22"

definition is_digit :: "char \<Rightarrow> bool" where
  "is_digit c = (c \<in> set ''0123456789'')"

text \<open>
  One match attempt of \<^verbatim>\<open>data-code="(\d+)"[^>]*>([^<]+)<\<close> at the start of \<open>s\<close>:
  the two groups and the text after the match. Each greedy repetition is followed by a
  character outside its class, so backtracking never finds a second way to match and the
  attempt is deterministic. Characters are bytes: \<^verbatim>\<open>\d\<close> stands for the ASCII digits.
\<close>

definition match_data_code :: "string \<Rightarrow> ((string \<times> string) \<times> string) option" where
  "match_data_code s =
     (if \<not> startswith s (''data-code='' @ [dquote]) then None
      else
        let s1 = drop 11 s;
            loc_id = takeWhile is_digit s1
        in if loc_id = [] then None
           else (case dropWhile is_digit s1 of
                   [] \<Rightarrow> None
                 | q # s2 \<Rightarrow>
                     if q \<noteq> dquote then None
                     else (case dropWhile (\<lambda>c. c \<noteq> CHR ''>'') s2 of
                             [] \<Rightarrow> None
                           | gt # s3 \<Rightarrow>
                               let loc_name = takeWhile (\<lambda>c. c \<noteq> CHR ''<'') s3
                               in if loc_name = [] then None
                                  else (case dropWhile (\<lambda>c. c \<noteq> CHR ''<'') s3 of
                                          [] \<Rightarrow> None
                                        | lt # rest \<Rightarrow> Some ((loc_id, loc_name), rest)))))"

lemma match_data_code_shorter:
  assumes "match_data_code s = Some (m, rest)"
  shows "length rest < length s"
proof -
  have dw: "\<And>P (xs :: string) y ys. dropWhile P xs = y # ys \<Longrightarrow> length ys < length xs"
  proof -
    fix P and xs :: string and y ys
    assume h: "dropWhile P xs = y # ys"
    have "length (dropWhile P xs) \<le> length xs" by (rule length_dropWhile_le)
    with h show "length ys < length xs" by simp
  qed
  from assms obtain q s2 gt s3 lt where
    a: "dropWhile is_digit (drop 11 s) = q # s2" and
    b: "dropWhile (\<lambda>c. c \<noteq> CHR ''>'') s2 = gt # s3" and
    c: "dropWhile (\<lambda>c. c \<noteq> CHR ''<'') s3 = lt # rest"
    by (auto simp: match_data_code_def Let_def split: if_splits list.splits)
  from c have "length rest < length s3" by (rule dw)
  also from b have "length s3 < length s2" by (rule dw)
  also from a have "length s2 < length (drop 11 s)" by (rule dw)
  also have "length (drop 11 s) \<le> length s" by simp
  finally show ?thesis .
qed

text \<open>
  \<^verbatim>\<open>re.findall(pattern, html)\<close>: matches are searched from the left; after a match the
  search continues behind it, after a failed attempt one character further.
\<close>

function findall_data_code :: "string \<Rightarrow> (string \<times> string) list" where
  "findall_data_code [] = []"
| "findall_data_code (c # cs) =
     (case match_data_code (c # cs) of
        None \<Rightarrow> findall_data_code cs
      | Some (m, rest) \<Rightarrow> m # findall_data_code rest)"
  by pat_completeness auto
termination
  by (relation "measure length") (auto dest: match_data_code_shorter)

text \<open>\<^verbatim>\<open>re.search(r'data-assoc="(\d+)"', html)\<close>, group 1 of the first match.\<close>

definition match_data_assoc :: "string \<Rightarrow> string option" where
  "match_data_assoc s =
     (if \<not> startswith s (''data-assoc='' @ [dquote]) then None
      else
        let s1 = drop 12 s;
            assoc_id = takeWhile is_digit s1
        in if assoc_id = [] then None
           else (case dropWhile is_digit s1 of
                   [] \<Rightarrow> None
                 | q # s2 \<Rightarrow> if q = dquote then Some assoc_id else None))"

fun search_data_assoc :: "string \<Rightarrow> string option" where
  "search_data_assoc [] = None"
| "search_data_assoc (c # cs) =
     (case match_data_assoc (c # cs) of
        Some a \<Rightarrow> Some a
      | None \<Rightarrow> search_data_assoc cs)"

section \<open>Location metadata\<close>

text \<open>
  The values of the \<^verbatim>\<open>"type"\<close> key: \<^verbatim>\<open>"apartment"\<close>, \<^verbatim>\<open>"parking"\<close>, \<^verbatim>\<open>"unknown"\<close>.
\<close>

datatype loc_type = Apartment | Parking | Unknown

text \<open>
  One entry of \<^verbatim>\<open>self._location_info\<close>: a dict with the keys \<^verbatim>\<open>"name"\<close> and
  \<^verbatim>\<open>"id"\<close>, and the keys \<^verbatim>\<open>"apartment"\<close>, \<^verbatim>\<open>"type"\<close> and \<^verbatim>\<open>"association_id"\<close>
  once they have been assigned (\<open>None\<close>: the key is absent).
\<close>

record location_info =
  name :: string
  loc_id :: string
  apartment :: "string option"
  type :: "loc_type option"
  association_id :: "string option"

type_synonym info_map = "string \<rightharpoonup> location_info"

text \<open>
  Lines 129-139 of \<^verbatim>\<open>_extract_location_ids\<close>: the apartment designator and the type
  derived from a label.
\<close>

definition parse_label :: "string \<Rightarrow> py_error + (string option \<times> loc_type)" where
  "parse_label loc_name =
     (if contains loc_name '', ap. '' then
        (case index_py (split_py loc_name '', ap. '') 1 of
           Inl e \<Rightarrow> Inl e
         | Inr part \<Rightarrow>
             (case index_py (split_py part '','') 0 of
                Inl e \<Rightarrow> Inl e
              | Inr apt \<Rightarrow>
                  if contains loc_name ''PARCARI'' \<or> startswith apt ''S''
                  then Inr (Some apt, Parking)
                  else Inr (Some apt, Apartment)))
      else Inr (None, Unknown))"

text \<open>
  The loop over the matches (lines 118-139). The result carries the exception that
  left the loop, if any, with the identifiers and the metadata as they are at that point.
\<close>

fun extract_loop ::
  "(string \<times> string) list \<Rightarrow> string list \<Rightarrow> info_map \<Rightarrow>
     py_error option \<times> string list \<times> info_map" where
  "extract_loop [] location_ids info = (None, location_ids, info)"
| "extract_loop ((lid, loc_name) # ms) location_ids info =
     (if lid \<in> set location_ids then extract_loop ms location_ids info
      else
        let location_ids1 = location_ids @ [lid];
            entry = \<lparr>name = strip loc_name, loc_id = lid, apartment = None,
                     type = None, association_id = None\<rparr>
        in (case parse_label loc_name of
              Inl e \<Rightarrow> (Some e, location_ids1, info(lid \<mapsto> entry))
            | Inr (apt, ty) \<Rightarrow>
                extract_loop ms location_ids1
                  (info(lid \<mapsto> entry\<lparr>apartment := apt, type := Some ty\<rparr>))))"

text \<open>The loop attaching the association id (lines 146-147).\<close>

fun assoc_loop :: "string \<Rightarrow> string list \<Rightarrow> info_map \<Rightarrow> py_error option \<times> info_map" where
  "assoc_loop assoc_id [] info = (None, info)"
| "assoc_loop assoc_id (lid # ls) info =
     (case info lid of
        None \<Rightarrow> (Some KeyError, info)
      | Some entry \<Rightarrow>
          assoc_loop assoc_id ls (info(lid \<mapsto> entry\<lparr>association_id := Some assoc_id\<rparr>)))"

section \<open>Session state and upstream responses\<close>

record api_state =
  cookies :: "string \<rightharpoonup> string"
  authenticated :: bool
  location_ids :: "string list"
  location_info :: info_map

text \<open>The state after \<^verbatim>\<open>__init__\<close>.\<close>

definition init_state :: api_state where
  "init_state = \<lparr>cookies = Map.empty, authenticated = False,
                  location_ids = [], location_info = Map.empty\<rparr>"

record http_response =
  status :: nat
  resp_cookies :: "string \<rightharpoonup> string"

section \<open>Location discovery\<close>

text \<open>
  \<^verbatim>\<open>_extract_location_ids\<close>, given the outcome of the dashboard request: the identifiers
  returned and the metadata mapping afterwards. Every exception is caught and answered
  with the empty list.
\<close>

definition extract_location_ids ::
  "py_error + (nat \<times> (py_error + string)) \<Rightarrow> info_map \<Rightarrow> string list \<times> info_map" where
  "extract_location_ids dashboard info =
     (case dashboard of
        Inl e \<Rightarrow> ([], info)
      | Inr (st, body) \<Rightarrow>
          if st = 200 then
            (case body of
               Inl e \<Rightarrow> ([], info)
             | Inr html \<Rightarrow>
                 (case extract_loop (findall_data_code html) [] info of
                    (Some e, ids, info1) \<Rightarrow> ([], info1)
                  | (None, ids, info1) \<Rightarrow>
                      (case search_data_assoc html of
                         None \<Rightarrow> (ids, info1)
                       | Some assoc_id \<Rightarrow>
                           (case assoc_loop assoc_id ids info1 of
                              (Some e, info2) \<Rightarrow> ([], info2)
                            | (None, info2) \<Rightarrow> (ids, info2)))))
          else ([], info))"

section \<open>Decoded JSON bodies\<close>

text \<open>
  The value \<^verbatim>\<open>response.json()\<close> returns. \<open>JNull\<close> is Python's \<^verbatim>\<open>None\<close>; an object is
  the list of its items, looked up by key with \<open>map_of\<close>.
\<close>

datatype json =
    JNull
  | JBool bool
  | JInt int
  | JFloat real
  | JStr string
  | JArr "json list"
  | JObj "(string \<times> json) list"

text \<open>Truth value of a Python object.\<close>

fun truthy :: "json \<Rightarrow> bool" where
  "truthy JNull = False"
| "truthy (JBool b) = b"
| "truthy (JInt i) = (i \<noteq> 0)"
| "truthy (JFloat r) = (r \<noteq> 0)"
| "truthy (JStr s) = (s \<noteq> [])"
| "truthy (JArr xs) = (xs \<noteq> [])"
| "truthy (JObj kvs) = (kvs \<noteq> [])"

text \<open>\<^verbatim>\<open>x.get(key, default)\<close>: only a dict has the method.\<close>

fun py_get :: "json \<Rightarrow> string \<Rightarrow> json \<Rightarrow> py_error + json" where
  "py_get (JObj kvs) k d = (case map_of kvs k of None \<Rightarrow> Inr d | Some v \<Rightarrow> Inr v)"
| "py_get x k d = Inl AttributeError"

text \<open>\<^verbatim>\<open>x[key]\<close> for a string key, where \<open>x\<close> is known to be a dict.\<close>

fun py_getitem :: "json \<Rightarrow> string \<Rightarrow> py_error + json" where
  "py_getitem (JObj kvs) k = (case map_of kvs k of None \<Rightarrow> Inl KeyError | Some v \<Rightarrow> Inr v)"
| "py_getitem x k = Inl TypeError"

text \<open>\<^verbatim>\<open>len(x)\<close>\<close>

fun py_len :: "json \<Rightarrow> py_error + nat" where
  "py_len (JArr xs) = Inr (length xs)"
| "py_len (JStr s) = Inr (length s)"
| "py_len (JObj kvs) = Inr (length (remdups (map fst kvs)))"
| "py_len x = Inl TypeError"

text \<open>
  \<^verbatim>\<open>x[0]\<close>: the first element of a list, the first character of a string; the keys of
  a decoded object are strings, so \<^verbatim>\<open>0\<close> is never one of them.
\<close>

fun py_first :: "json \<Rightarrow> py_error + json" where
  "py_first (JArr xs) = (case xs of [] \<Rightarrow> Inl IndexError | x # _ \<Rightarrow> Inr x)"
| "py_first (JStr s) = (case s of [] \<Rightarrow> Inl IndexError | c # _ \<Rightarrow> Inr (JStr [c]))"
| "py_first (JObj kvs) = Inl KeyError"
| "py_first x = Inl TypeError"

text \<open>
  \<^verbatim>\<open>float(x)\<close>. The parser of numeric strings is the parameter \<open>str2f\<close> (\<open>None\<close>: the
  string is rejected with ValueError). An integer whose nearest double is out of range
  is rejected with OverflowError.
\<close>

fun py_float :: "(string \<Rightarrow> real option) \<Rightarrow> json \<Rightarrow> py_error + real" where
  "py_float str2f JNull = Inl TypeError"
| "py_float str2f (JBool b) = Inr (if b then 1 else 0)"
| "py_float str2f (JInt i) =
     (if \<bar>i\<bar> \<ge> 2 ^ 1024 - 2 ^ 970 then Inl OverflowError else Inr (of_int i))"
| "py_float str2f (JFloat r) = Inr r"
| "py_float str2f (JStr s) = (case str2f s of None \<Rightarrow> Inl ValueError | Some r \<Rightarrow> Inr r)"
| "py_float str2f (JArr xs) = Inl TypeError"
| "py_float str2f (JObj kvs) = Inl TypeError"

section \<open>Upstream responses\<close>

text \<open>
  What the portal answers during one poll. A request that raises in the transport is
  \<open>Inl\<close>; a body whose decoding raises (\<^verbatim>\<open>response.text()\<close>, \<^verbatim>\<open>response.json()\<close>) is
  \<open>Inl\<close> inside the response. The three API responses depend on the location id
  substituted into the URL.
\<close>

type_synonym api_response = "py_error + (nat \<times> (py_error + json))"

record upstream =
  login_page :: "py_error + http_response"
  login_submit :: "py_error + http_response"
  dashboard :: "py_error + (nat \<times> (py_error + string))"
  pending_payments_api :: "string \<Rightarrow> api_response"
  payments_history_api :: "string \<Rightarrow> api_response"
  counters_api :: "string \<Rightarrow> api_response"

section \<open>Authenticator\<close>

text \<open>
  \<^verbatim>\<open>authenticate\<close>: \<open>Inl\<close> when it raises, otherwise the boolean it returns, with the
  state afterwards. \<^verbatim>\<open>dict.update\<close> is map override.
\<close>

definition authenticate :: "upstream \<Rightarrow> api_state \<Rightarrow> (py_error + bool) \<times> api_state" where
  "authenticate up s =
     (case login_page up of
        Inl e \<Rightarrow> (Inl e, s)
      | Inr r1 \<Rightarrow>
          if status r1 \<noteq> 200 then (Inl (LoginPageFailed (status r1)), s)
          else
            let s1 = s\<lparr>cookies := cookies s ++ resp_cookies r1\<rparr>
            in (case login_submit up of
                  Inl e \<Rightarrow> (Inl e, s1)
                | Inr r2 \<Rightarrow>
                    let s2 = s1\<lparr>cookies := cookies s1 ++ resp_cookies r2\<rparr>
                    in if status r2 = 302 then
                         if ''adminis'' \<in> dom (cookies s2)
                         then (Inr True, s2\<lparr>authenticated := True\<rparr>)
                         else (Inr False, s2)
                       else (Inr False, s2)))"

section \<open>Endpoint fetchers\<close>

text \<open>
  \<^verbatim>\<open>_fetch_pending_payments\<close>, \<^verbatim>\<open>_fetch_payment_history\<close> and \<^verbatim>\<open>_fetch_counters\<close> have
  the same body: the decoded JSON for status 200, an exception otherwise.
\<close>

definition fetch :: "api_response \<Rightarrow> py_error + json" where
  "fetch resp =
     (case resp of
        Inl e \<Rightarrow> Inl e
      | Inr (st, body) \<Rightarrow> if st = 200 then body else Inl (FetchFailed st))"

definition fetch_pending_payments :: "upstream \<Rightarrow> string \<Rightarrow> py_error + json" where
  "fetch_pending_payments up location_id = fetch (pending_payments_api up location_id)"

definition fetch_payment_history :: "upstream \<Rightarrow> string \<Rightarrow> py_error + json" where
  "fetch_payment_history up location_id = fetch (payments_history_api up location_id)"

definition fetch_counters :: "upstream \<Rightarrow> string \<Rightarrow> py_error + json" where
  "fetch_counters up location_id = fetch (counters_api up location_id)"

section \<open>Aggregator\<close>

text \<open>
  The per-location dict of \<^verbatim>\<open>get_data\<close>. Each of the three fetched fields holds the
  decoded body or \<^verbatim>\<open>None\<close> (\<open>JNull\<close>); \<open>info\<close> is \<open>None\<close> when the key is absent.
\<close>

record location_data =
  info :: "location_info option"
  pending_payments :: json
  payment_history :: json
  counters :: json

text \<open>The local \<^verbatim>\<open>last_payment\<close> dict.\<close>

record last_payment =
  amount :: real
  date :: json
  location_id :: string

text \<open>
  The summary dict; the three \<^verbatim>\<open>last_payment_*\<close> keys are absent (\<open>None\<close>) unless a
  last payment was found.
\<close>

record summary =
  total_pending :: real
  location_count :: nat
  last_payment_amount :: "real option"
  last_payment_date :: "json option"
  last_payment_location_id :: "string option"

text \<open>
  The result of \<^verbatim>\<open>get_data\<close>. \<open>locations\<close> is a dict in insertion order:
  \<open>AList.update\<close> is \<^verbatim>\<open>d[k] = v\<close>.
\<close>

record snapshot =
  locations :: "(string \<times> location_data) list"
  summary :: summary

text \<open>
  Lines 220-224: the statements after the pending-payments fetch, inside the same
  \<^verbatim>\<open>try\<close>. They compute nothing, but they raise when the body has not the shape
  they expect.
\<close>

definition pending_amount_check :: "json \<Rightarrow> py_error + unit" where
  "pending_amount_check pending =
     (case py_get pending ''results'' JNull of
        Inl e \<Rightarrow> Inl e
      | Inr r \<Rightarrow>
          if truthy r then
            (case py_getitem pending ''results'' of
               Inl e \<Rightarrow> Inl e
             | Inr results \<Rightarrow>
                 (case py_get results ''owner'' JNull of
                    Inl e \<Rightarrow> Inl e
                  | Inr owner \<Rightarrow>
                      if truthy owner then Inr ()
                      else (case py_get results ''assoc'' JNull of
                              Inl e \<Rightarrow> Inl e
                            | Inr assoc \<Rightarrow> Inr ())))
          else Inr ())"

text \<open>Lines 214-227: the value of \<^verbatim>\<open>location_data["pending_payments"]\<close>.\<close>

definition pending_payments_field :: "upstream \<Rightarrow> string \<Rightarrow> json" where
  "pending_payments_field up lid =
     (case fetch_pending_payments up lid of
        Inl e \<Rightarrow> JNull
      | Inr pending \<Rightarrow>
          (case pending_amount_check pending of
             Inl e \<Rightarrow> JNull
           | Inr u \<Rightarrow> pending))"

text \<open>
  Lines 235-242: the statements after the payment-history fetch, inside the same
  \<^verbatim>\<open>try\<close>; the result is the new value of \<^verbatim>\<open>last_payment\<close>.
\<close>

definition last_payment_update ::
  "(string \<Rightarrow> real option) \<Rightarrow> string \<Rightarrow> last_payment option \<Rightarrow> json \<Rightarrow>
     py_error + last_payment option" where
  "last_payment_update str2f lid lp history =
     (case py_get history ''results'' JNull of
        Inl e \<Rightarrow> Inl e
      | Inr r \<Rightarrow>
          if \<not> truthy r then Inr lp
          else
            (case py_getitem history ''results'' of
               Inl e \<Rightarrow> Inl e
             | Inr r1 \<Rightarrow>
                 (case py_len r1 of
                    Inl e \<Rightarrow> Inl e
                  | Inr n \<Rightarrow>
                      if \<not> n > 0 then Inr lp
                      else
                        (case py_getitem history ''results'' of
                           Inl e \<Rightarrow> Inl e
                         | Inr r2 \<Rightarrow>
                             (case py_first r2 of
                                Inl e \<Rightarrow> Inl e
                              | Inr latest \<Rightarrow>
                                  if lp = None then
                                    (case py_get latest ''amount'' (JInt 0) of
                                       Inl e \<Rightarrow> Inl e
                                     | Inr a \<Rightarrow>
                                         (case py_float str2f a of
                                            Inl e \<Rightarrow> Inl e
                                          | Inr f \<Rightarrow>
                                              (case py_get latest ''date'' (JStr []) of
                                                 Inl e \<Rightarrow> Inl e
                                               | Inr d \<Rightarrow>
                                                   Inr (Some \<lparr>amount = f, date = d,
                                                              location_id = lid\<rparr>))))
                                  else Inr lp)))))"

text \<open>
  Lines 230-245: the value of \<^verbatim>\<open>location_data["payment_history"]\<close> and the new
  \<^verbatim>\<open>last_payment\<close>.
\<close>

definition payment_history_field ::
  "(string \<Rightarrow> real option) \<Rightarrow> upstream \<Rightarrow> string \<Rightarrow> last_payment option \<Rightarrow>
     json \<times> last_payment option" where
  "payment_history_field str2f up lid lp =
     (case fetch_payment_history up lid of
        Inl e \<Rightarrow> (JNull, lp)
      | Inr history \<Rightarrow>
          (case last_payment_update str2f lid lp history of
             Inl e \<Rightarrow> (JNull, lp)
           | Inr lp1 \<Rightarrow> (history, lp1)))"

text \<open>Lines 248-256: the value of \<^verbatim>\<open>location_data["counters"]\<close>.\<close>

definition counters_field :: "upstream \<Rightarrow> string \<Rightarrow> json" where
  "counters_field up lid =
     (case fetch_counters up lid of
        Inl e \<Rightarrow> JNull
      | Inr c \<Rightarrow> c)"

text \<open>One iteration of the loop over \<^verbatim>\<open>self._location_ids\<close> (lines 197-258).\<close>

definition location_step ::
  "(string \<Rightarrow> real option) \<Rightarrow> upstream \<Rightarrow> info_map \<Rightarrow> string \<Rightarrow> last_payment option \<Rightarrow>
     location_data \<times> last_payment option" where
  "location_step str2f up im lid lp =
     (let pp = pending_payments_field up lid;
          (ph, lp1) = payment_history_field str2f up lid lp;
          c = counters_field up lid
      in (\<lparr>info = im lid, pending_payments = pp, payment_history = ph, counters = c\<rparr>, lp1))"

text \<open>The loop, with \<^verbatim>\<open>locations_data\<close> and \<^verbatim>\<open>last_payment\<close> as accumulators.\<close>

fun collect ::
  "(string \<Rightarrow> real option) \<Rightarrow> upstream \<Rightarrow> info_map \<Rightarrow> string list \<Rightarrow>
     (string \<times> location_data) list \<Rightarrow> last_payment option \<Rightarrow>
     (string \<times> location_data) list \<times> last_payment option" where
  "collect str2f up im [] locations_data lp = (locations_data, lp)"
| "collect str2f up im (lid # ls) locations_data lp =
     (case location_step str2f up im lid lp of
        (ld, lp1) \<Rightarrow> collect str2f up im ls (AList.update lid ld locations_data) lp1)"

text \<open>Lines 261-269.\<close>

definition build_summary :: "nat \<Rightarrow> last_payment option \<Rightarrow> summary" where
  "build_summary n lp =
     (case lp of
        None \<Rightarrow> \<lparr>total_pending = 0, location_count = n, last_payment_amount = None,
                  last_payment_date = None, last_payment_location_id = None\<rparr>
      | Some p \<Rightarrow> \<lparr>total_pending = 0, location_count = n,
                    last_payment_amount = Some (amount p),
                    last_payment_date = Some (date p),
                    last_payment_location_id = Some (location_id p)\<rparr>)"

text \<open>Line 189: the result when discovery finds nothing.\<close>

definition empty_snapshot :: snapshot where
  "empty_snapshot =
     \<lparr>locations = [],
      summary = \<lparr>total_pending = 0, location_count = 0, last_payment_amount = None,
                 last_payment_date = None, last_payment_location_id = None\<rparr>\<rparr>"

text \<open>Lines 192-274: the collection over the known locations.\<close>

definition collect_all ::
  "(string \<Rightarrow> real option) \<Rightarrow> upstream \<Rightarrow> api_state \<Rightarrow> snapshot" where
  "collect_all str2f up s =
     (case collect str2f up (location_info s) (location_ids s) [] None of
        (locations_data, lp) \<Rightarrow>
          \<lparr>locations = locations_data,
           summary = build_summary (length (location_ids s)) lp\<rparr>)"

text \<open>
  \<^verbatim>\<open>get_data\<close> (the poll): \<open>Inl\<close> when it raises, otherwise the snapshot, with the
  state afterwards. The value \<^verbatim>\<open>authenticate\<close> returns is not used.
\<close>

definition get_data ::
  "(string \<Rightarrow> real option) \<Rightarrow> upstream \<Rightarrow> api_state \<Rightarrow> (py_error + snapshot) \<times> api_state" where
  "get_data str2f up s =
     (case (if \<not> authenticated s then authenticate up s else (Inr True, s)) of
        (Inl e, s1) \<Rightarrow> (Inl e, s1)
      | (Inr b, s1) \<Rightarrow>
          if location_ids s1 = [] then
            (case extract_location_ids (dashboard up) (location_info s1) of
               (ids, im) \<Rightarrow>
                 let s2 = s1\<lparr>location_ids := ids, location_info := im\<rparr>
                 in if ids = [] then (Inr empty_snapshot, s2)
                    else (Inr (collect_all str2f up s2), s2))
          else (Inr (collect_all str2f up s1), s1))"

section \<open>Labels: the apartment designator and the type\<close>

text \<open>
  The designator in the words of the specification: the text behind the first
  \<^verbatim>\<open>", ap. "\<close>, up to the next comma. \<open>after_first sep s\<close> is the text behind the
  first occurrence of \<open>sep\<close> in \<open>s\<close>, if there is one.
\<close>

fun after_first :: "string \<Rightarrow> string \<Rightarrow> string option" where
  "after_first sep [] = None"
| "after_first sep (c # cs) =
     (if startswith (c # cs) sep then Some (drop (length sep) (c # cs))
      else after_first sep cs)"

lemma contains_after_first:
  "sep \<noteq> [] \<Longrightarrow> contains s sep \<longleftrightarrow> after_first sep s \<noteq> None"
  by (induction s) auto

lemma split_from_after_first:
  "sep \<noteq> [] \<Longrightarrow> after_first sep s = Some rest \<Longrightarrow>
     \<exists>pre. split_from sep cur s = (cur @ pre) # split_from sep [] rest"
proof (induction s arbitrary: cur)
  case Nil
  then show ?case by simp
next
  case (Cons c cs)
  show ?case
  proof (cases "startswith (c # cs) sep")
    case True
    with Cons.prems show ?thesis by (intro exI[of _ "[]"]) simp
  next
    case False
    with Cons.prems have "after_first sep cs = Some rest" by simp
    from Cons.IH[OF Cons.prems(1) this, of "cur @ [c]"] obtain pre where
      "split_from sep (cur @ [c]) cs = ((cur @ [c]) @ pre) # split_from sep [] rest"
      by blast
    with False show ?thesis by (intro exI[of _ "c # pre"]) simp
  qed
qed

lemma split_from_nonempty: "split_from sep cur s \<noteq> []"
  by (induction sep cur s rule: split_from.induct) auto

text \<open>
  A piece that \<^verbatim>\<open>split\<close> cuts off at a separator starting with \<open>x\<close> agrees with the
  text up to its first \<open>x\<close>.
\<close>

lemma takeWhile_hd_split_from:
  "takeWhile (\<lambda>c. c \<noteq> x) (hd (split_from (x # sep) cur s)) =
   takeWhile (\<lambda>c. c \<noteq> x) (cur @ s)"
proof (induction s arbitrary: cur)
  case Nil
  then show ?case by simp
next
  case (Cons c cs)
  show ?case
  proof (cases "startswith (c # cs) (x # sep)")
    case True
    then have "c = x" by simp
    with True show ?thesis by (simp add: takeWhile_append)
  next
    case False
    then have "split_from (x # sep) cur (c # cs) = split_from (x # sep) (cur @ [c]) cs"
      by (subst split_from.simps) (simp only: if_False simp_thms)
    with Cons.IH[of "cur @ [c]"] show ?thesis by simp
  qed
qed

lemma hd_split_from_single:
  "hd (split_from [x] cur s) = cur @ takeWhile (\<lambda>c. c \<noteq> x) s"
proof (induction s arbitrary: cur)
  case Nil
  then show ?case by simp
next
  case (Cons c cs)
  show ?case
  proof (cases "c = x")
    case True
    then show ?thesis by simp
  next
    case False
    with Cons.IH[of "cur @ [c]"] show ?thesis by simp
  qed
qed

text \<open>The two subscripts of line 131 are always in range.\<close>

lemma parse_label_total: "\<exists>r. parse_label l = Inr r"
proof (cases "after_first '', ap. '' l")
  case None
  then have "\<not> contains l '', ap. ''" by (simp add: contains_after_first)
  then show ?thesis by (simp add: parse_label_def)
next
  case (Some rest)
  from split_from_after_first[OF _ Some, of "[]"] obtain pre where
    sp: "split_py l '', ap. '' = pre # split_from '', ap. '' [] rest"
    by (auto simp: split_py_def)
  obtain part ps where ps: "split_from '', ap. '' [] rest = part # ps"
    using split_from_nonempty[of "'', ap. ''" "[]" rest]
    by (cases "split_from '', ap. '' [] rest") auto
  obtain apt qs where qs: "split_py part '','' = apt # qs"
    using split_from_nonempty[of "'',''" "[]" part]
    by (cases "split_py part '',''") (auto simp: split_py_def)
  show ?thesis using sp ps qs by (simp add: parse_label_def index_py_def)
qed

text \<open>
  Claim C2, as the code has it. The label is of type parking exactly when it contains
  \<^verbatim>\<open>", ap. "\<close> and, besides, contains \<^verbatim>\<open>"PARCARI"\<close> or has a designator starting
  with \<^verbatim>\<open>"S"\<close>; it is of type apartment when it contains \<^verbatim>\<open>", ap. "\<close> and neither
  holds; it is of type unknown, with no designator, whenever \<^verbatim>\<open>", ap. "\<close> is missing,
  also when the label contains \<^verbatim>\<open>"PARCARI"\<close>. The designator is the text behind the
  first \<^verbatim>\<open>", ap. "\<close> up to the next comma. The parse never raises.
\<close>

theorem parse_label_classification:
  "parse_label l =
     Inr (case after_first '', ap. '' l of
            None \<Rightarrow> (None, Unknown)
          | Some rest \<Rightarrow>
              let apt = takeWhile (\<lambda>c. c \<noteq> CHR '','') rest
              in (Some apt, if contains l ''PARCARI'' \<or> startswith apt ''S''
                            then Parking else Apartment))"
proof (cases "after_first '', ap. '' l")
  case None
  then have "\<not> contains l '', ap. ''" by (simp add: contains_after_first)
  with None show ?thesis by (simp add: parse_label_def)
next
  case (Some rest)
  then have c: "contains l '', ap. ''" by (simp add: contains_after_first)
  from split_from_after_first[OF _ Some, of "[]"] obtain pre where
    sp: "split_py l '', ap. '' = pre # split_from '', ap. '' [] rest"
    by (auto simp: split_py_def)
  obtain part ps where ps: "split_from '', ap. '' [] rest = part # ps"
    using split_from_nonempty[of "'', ap. ''" "[]" rest]
    by (cases "split_from '', ap. '' [] rest") auto
  have part: "takeWhile (\<lambda>c. c \<noteq> CHR '','') part = takeWhile (\<lambda>c. c \<noteq> CHR '','') rest"
    using takeWhile_hd_split_from[of "CHR '',''" "'' ap. ''" "[]" rest] ps by simp
  obtain apt qs where qs: "split_py part '','' = apt # qs"
    using split_from_nonempty[of "'',''" "[]" part]
    by (cases "split_py part '',''") (auto simp: split_py_def)
  have apt: "apt = takeWhile (\<lambda>c. c \<noteq> CHR '','') part"
    using hd_split_from_single[of "CHR '',''" "[]" part] qs by (simp add: split_py_def)
  show ?thesis
    using c sp ps qs apt part Some
    by (simp add: parse_label_def index_py_def Let_def)
qed

theorem parse_label_classification_witness:
  "parse_label ''Str. X, ap. S4, Iasi'' = Inr (Some ''S4'', Parking)"
  using parse_label_classification [of "''Str. X, ap. S4, Iasi''"] by simp

text \<open>
  Claim C2 as stated fails: a label with the parking marker and without \<^verbatim>\<open>", ap. "\<close>
  is of type unknown, not parking.
\<close>

theorem parking_marker_without_delimiter_counterexample:
  "contains ''PARCARI Subsol, loc 3'' ''PARCARI'' \<and>
   \<not> contains ''PARCARI Subsol, loc 3'' '', ap. '' \<and>
   parse_label ''PARCARI Subsol, loc 3'' = Inr (None, Unknown)"
  by (simp add: parse_label_def)

section \<open>Discovery returns each identifier once\<close>

text \<open>
  De-duplication in the words of the specification: every element once, in the order
  of first occurrence.
\<close>

fun first_seen :: "'a list \<Rightarrow> 'a list" where
  "first_seen [] = []"
| "first_seen (x # xs) = x # first_seen (filter (\<lambda>y. y \<noteq> x) xs)"

lemma set_first_seen: "set (first_seen xs) = set xs"
  by (induction xs rule: first_seen.induct) auto

lemma distinct_first_seen: "distinct (first_seen xs)"
  by (induction xs rule: first_seen.induct) (auto simp: set_first_seen)


text \<open>
  The loop over the matches never leaves with an exception; it appends the new
  identifiers in the order of their first occurrence and records an entry for each.
\<close>

lemma extract_loop_ids:
  "\<exists>im1. extract_loop ms ids im0 =
     (None, ids @ first_seen (filter (\<lambda>x. x \<notin> set ids) (map fst ms)), im1) \<and>
     dom im1 = dom im0 \<union> set (filter (\<lambda>x. x \<notin> set ids) (map fst ms))"
proof (induction ms arbitrary: ids im0)
  case Nil
  then show ?case by simp
next
  case (Cons m ms)
  obtain lid loc_name where m: "m = (lid, loc_name)" by (cases m)
  show ?case
  proof (cases "lid \<in> set ids")
    case True
    with Cons.IH[of ids im0] m show ?thesis by simp
  next
    case False
    obtain apt ty where pl: "parse_label loc_name = Inr (apt, ty)"
      using parse_label_total[of loc_name] by (cases "parse_label loc_name") auto
    let ?e = "\<lparr>name = strip loc_name, loc_id = lid, apartment = apt,
                type = Some ty, association_id = None\<rparr>"
    from Cons.IH[of "ids @ [lid]" "im0(lid \<mapsto> ?e)"] obtain im1 where
      ih: "extract_loop ms (ids @ [lid]) (im0(lid \<mapsto> ?e)) =
            (None, (ids @ [lid]) @ first_seen (filter (\<lambda>x. x \<notin> set (ids @ [lid])) (map fst ms)), im1)"
      and d: "dom im1 = dom (im0(lid \<mapsto> ?e)) \<union> set (filter (\<lambda>x. x \<notin> set (ids @ [lid])) (map fst ms))"
      by blast
    have f: "filter (\<lambda>y. y \<noteq> lid) (filter (\<lambda>x. x \<notin> set ids) (map fst ms)) =
             filter (\<lambda>x. x \<notin> set (ids @ [lid])) (map fst ms)"
      by (auto intro: filter_cong)
    show ?thesis
      using False m pl ih d f by (auto simp: Let_def)
  qed
qed

lemma assoc_loop_dom:
  "set ls \<subseteq> dom im0 \<Longrightarrow> \<exists>im1. assoc_loop a ls im0 = (None, im1) \<and> dom im1 = dom im0"
proof (induction ls arbitrary: im0)
  case Nil
  then show ?case by simp
next
  case (Cons l ls)
  then obtain e where e: "im0 l = Some e" by auto
  let ?i = "im0(l \<mapsto> e\<lparr>association_id := Some a\<rparr>)"
  have "set ls \<subseteq> dom ?i" using Cons.prems by auto
  from Cons.IH[OF this] obtain im1 where
    "assoc_loop a ls ?i = (None, im1)" "dom im1 = dom ?i" by blast
  with e show ?case by auto
qed

text \<open>
  The identifiers \<^verbatim>\<open>_extract_location_ids\<close> returns, as a function of the outcome of
  the dashboard request alone.
\<close>

definition discovered_ids :: "py_error + (nat \<times> (py_error + string)) \<Rightarrow> string list" where
  "discovered_ids d =
     (case d of
        Inr (st, Inr html) \<Rightarrow> if st = 200 then first_seen (map fst (findall_data_code html)) else []
      | _ \<Rightarrow> [])"

lemma extract_location_ids_ids:
  "fst (extract_location_ids d im) = discovered_ids d"
proof (cases d)
  case (Inl e)
  then show ?thesis by (simp add: extract_location_ids_def discovered_ids_def)
next
  case (Inr r)
  obtain st body where r: "r = (st, body)" by (cases r)
  show ?thesis
  proof (cases "st = 200")
    case False
    with Inr r show ?thesis by (simp add: extract_location_ids_def discovered_ids_def)
  next
    case True
    show ?thesis
    proof (cases body)
      case (Inl e)
      with Inr r True show ?thesis by (simp add: extract_location_ids_def discovered_ids_def)
    next
      case html: (Inr html)
      let ?ids = "first_seen (map fst (findall_data_code html))"
      from extract_loop_ids[of "findall_data_code html" "[]" im] obtain im1 where
        el: "extract_loop (findall_data_code html) [] im = (None, ?ids, im1)"
        and d1: "dom im1 = dom im \<union> set (map fst (findall_data_code html))"
        by auto
      have sub: "set ?ids \<subseteq> dom im1" using d1 by (auto simp: set_first_seen)
      show ?thesis
      proof (cases "search_data_assoc html")
        case None
        with Inr r True html el show ?thesis
          by (simp add: extract_location_ids_def discovered_ids_def)
      next
        case (Some a)
        from assoc_loop_dom[OF sub, of a] obtain im2 where
          "assoc_loop a ?ids im1 = (None, im2)" by blast
        with Some Inr r True html el show ?thesis
          by (simp add: extract_location_ids_def discovered_ids_def)
      qed
    qed
  qed
qed

lemma findall_data_code_twice:
  "findall_data_code
     (''<a data-code='' @ [dquote] @ ''7'' @ [dquote] @ ''>A</a><a data-code='' @ [dquote]
       @ ''9'' @ [dquote] @ '' class=x>B</a><b data-code='' @ [dquote] @ ''7'' @ [dquote]
       @ ''>C</b>'') =
   [(''7'', ''A''), (''9'', ''B''), (''7'', ''C'')]"
  by (simp add: match_data_code_def dquote_def is_digit_def)

text \<open>
  Claim C6. For every dashboard markup served with status 200, the identifiers
  discovery returns are the matched identifiers, each exactly once, in the order of
  their first occurrence in the markup.
\<close>

theorem discovery_deduplicates:
  "fst (extract_location_ids (Inr (200, Inr html)) im) =
     first_seen (map fst (findall_data_code html)) \<and>
   distinct (fst (extract_location_ids (Inr (200, Inr html)) im)) \<and>
   set (fst (extract_location_ids (Inr (200, Inr html)) im)) =
     fst ` set (findall_data_code html)"
  by (simp add: extract_location_ids_ids discovered_ids_def distinct_first_seen
      set_first_seen)

theorem discovery_deduplicates_witness:
  "fst (extract_location_ids
     (Inr (200, Inr (''<a data-code='' @ [dquote] @ ''7'' @ [dquote] @ ''>A</a><a data-code=''
        @ [dquote] @ ''9'' @ [dquote] @ '' class=x>B</a><b data-code='' @ [dquote] @ ''7''
        @ [dquote] @ ''>C</b>''))) Map.empty) = [''7'', ''9'']"
  using discovery_deduplicates [of "''<a data-code='' @ [dquote] @ ''7'' @ [dquote]
        @ ''>A</a><a data-code='' @ [dquote] @ ''9'' @ [dquote] @ '' class=x>B</a><b data-code=''
        @ [dquote] @ ''7'' @ [dquote] @ ''>C</b>''" Map.empty]
  by (simp only: findall_data_code_twice) simp

section \<open>The poll: when it raises and what it returns\<close>

lemma authenticate_keeps_locations:
  "location_ids (snd (authenticate up s)) = location_ids s \<and>
   location_info (snd (authenticate up s)) = location_info s"
  by (simp add: authenticate_def Let_def split: sum.splits)

lemma authenticate_Inr_cases:
  "(\<exists>b. fst (authenticate up s) = Inr b) \<longleftrightarrow>
   (\<exists>r1 r2. login_page up = Inr r1 \<and> status r1 = 200 \<and> login_submit up = Inr r2)"
  by (auto simp: authenticate_def Let_def split: sum.splits)

lemma collect_all_no_locations:
  "location_ids s = [] \<Longrightarrow> collect_all str2f up s = empty_snapshot"
  by (simp add: collect_all_def build_summary_def empty_snapshot_def)

lemma get_data_raises_iff:
  "fst (get_data str2f up s) = Inl e \<longleftrightarrow>
   \<not> authenticated s \<and> fst (authenticate up s) = Inl e"
  by (cases "authenticate up s"; cases "fst (authenticate up s)")
     (auto simp: get_data_def Let_def split: prod.splits sum.splits if_splits)

lemma get_data_snapshot:
  assumes "get_data str2f up s = (Inr snap, s')"
  shows "snap = collect_all str2f up s'"
  using assms
  by (auto simp: get_data_def Let_def collect_all_no_locations
      split: prod.splits sum.splits if_splits)

lemma get_data_location_ids:
  assumes "get_data str2f up s = (Inr snap, s')"
  shows "location_ids s' =
     (if location_ids s = [] then discovered_ids (dashboard up) else location_ids s)"
proof -
  have a: "location_ids (snd (authenticate up s)) = location_ids s"
    by (simp add: authenticate_keeps_locations)
  have e: "\<And>im. fst (extract_location_ids (dashboard up) im) = discovered_ids (dashboard up)"
    by (rule extract_location_ids_ids)
  show ?thesis
    using assms a e
    apply (auto simp: get_data_def Let_def split: prod.splits sum.splits if_splits)
    apply (metis fst_conv snd_conv)+
    done
qed

section \<open>The states a client can be in\<close>

text \<open>
  \<^verbatim>\<open>get_locations\<close> (lines 390-398). \<^verbatim>\<open>get_payment_history\<close> changes the state in the
  same way, and \<^verbatim>\<open>get_billing_info\<close> as \<^verbatim>\<open>authenticate\<close> followed by \<^verbatim>\<open>get_data\<close>.
\<close>

definition get_locations :: "upstream \<Rightarrow> api_state \<Rightarrow> (py_error + string list) \<times> api_state" where
  "get_locations up s =
     (case (if \<not> authenticated s then authenticate up s else (Inr True, s)) of
        (Inl e, s1) \<Rightarrow> (Inl e, s1)
      | (Inr b, s1) \<Rightarrow>
          if location_ids s1 = [] then
            (case extract_location_ids (dashboard up) (location_info s1) of
               (ids, im) \<Rightarrow> (Inr ids, s1\<lparr>location_ids := ids, location_info := im\<rparr>))
          else (Inr (location_ids s1), s1))"

text \<open>
  The states reached from the one \<^verbatim>\<open>__init__\<close> builds by calls of the methods that
  change the state, whatever the portal answers.
\<close>

inductive reachable :: "api_state \<Rightarrow> bool" where
  reachable_init: "reachable init_state"
| reachable_authenticate: "reachable s \<Longrightarrow> reachable (snd (authenticate up s))"
| reachable_get_data: "reachable s \<Longrightarrow> reachable (snd (get_data str2f up s))"
| reachable_get_locations: "reachable s \<Longrightarrow> reachable (snd (get_locations up s))"

lemma distinct_discovered_ids: "distinct (discovered_ids d)"
  by (auto simp: discovered_ids_def distinct_first_seen split: sum.splits)

lemma get_data_ids_cases:
  "location_ids (snd (get_data str2f up s)) = location_ids s \<or>
   location_ids (snd (get_data str2f up s)) = discovered_ids (dashboard up)"
proof -
  have a: "location_ids (snd (authenticate up s)) = location_ids s"
    by (simp add: authenticate_keeps_locations)
  have e: "\<And>im. fst (extract_location_ids (dashboard up) im) = discovered_ids (dashboard up)"
    by (rule extract_location_ids_ids)
  show ?thesis
    using a e
    apply (auto simp: get_data_def Let_def split: prod.splits sum.splits if_splits)
    apply (metis fst_conv snd_conv)+
    done
qed

lemma get_locations_ids_cases:
  "location_ids (snd (get_locations up s)) = location_ids s \<or>
   location_ids (snd (get_locations up s)) = discovered_ids (dashboard up)"
proof -
  have a: "location_ids (snd (authenticate up s)) = location_ids s"
    by (simp add: authenticate_keeps_locations)
  have e: "\<And>im. fst (extract_location_ids (dashboard up) im) = discovered_ids (dashboard up)"
    by (rule extract_location_ids_ids)
  show ?thesis
    using a e
    apply (auto simp: get_locations_def Let_def split: prod.splits sum.splits if_splits)
    apply (metis fst_conv snd_conv)+
    done
qed

lemma reachable_distinct: "reachable s \<Longrightarrow> distinct (location_ids s)"
proof (induction rule: reachable.induct)
  case reachable_init
  then show ?case by (simp add: init_state_def)
next
  case (reachable_authenticate s up)
  then show ?case by (simp add: authenticate_keeps_locations)
next
  case (reachable_get_data s str2f up)
  with get_data_ids_cases[of str2f up s] show ?case
    by (auto simp: distinct_discovered_ids)
next
  case (reachable_get_locations s up)
  with get_locations_ids_cases[of up s] show ?case
    by (auto simp: distinct_discovered_ids)
qed

section \<open>The loop over the locations\<close>

text \<open>How one iteration changes \<^verbatim>\<open>last_payment\<close>.\<close>

definition last_payment_step ::
  "(string \<Rightarrow> real option) \<Rightarrow> upstream \<Rightarrow> last_payment option \<Rightarrow> string \<Rightarrow> last_payment option" where
  "last_payment_step str2f up lp lid = snd (payment_history_field str2f up lid lp)"

lemma collect_last_payment:
  "snd (collect str2f up im ids locs lp) = foldl (last_payment_step str2f up) lp ids"
  by (induction ids arbitrary: locs lp)
     (auto simp: location_step_def last_payment_step_def Let_def split: prod.splits)

lemma collect_keys:
  "distinct ids \<Longrightarrow> set ids \<inter> fst ` set locs = {} \<Longrightarrow>
   map fst (fst (collect str2f up im ids locs lp)) = map fst locs @ ids"
proof (induction ids arbitrary: locs lp)
  case Nil
  then show ?case by simp
next
  case (Cons l ls)
  obtain ld lp1 where st: "location_step str2f up im l lp = (ld, lp1)"
    by (cases "location_step str2f up im l lp")
  have k: "map fst (AList.update l ld locs) = map fst locs @ [l]"
    using Cons.prems by (auto simp: update_keys)
  have "set ls \<inter> fst ` set (AList.update l ld locs) = {}"
    using Cons.prems by (auto simp: dom_update)
  from Cons.IH[OF _ this, of lp1] Cons.prems st k show ?case by simp
qed

lemma collect_map_of_other:
  "l \<notin> set ids \<Longrightarrow>
   map_of (fst (collect str2f up im ids locs lp)) l = map_of locs l"
proof (induction ids arbitrary: locs lp)
  case Nil
  then show ?case by simp
next
  case (Cons x xs)
  obtain ld lp1 where st: "location_step str2f up im x lp = (ld, lp1)"
    by (cases "location_step str2f up im x lp")
  from Cons st show ?case by (simp add: update_conv')
qed

lemma collect_append:
  "collect str2f up im (xs @ ys) locs lp =
     (case collect str2f up im xs locs lp of
        (locs1, lp1) \<Rightarrow> collect str2f up im ys locs1 lp1)"
  by (induction xs arbitrary: locs lp) (auto split: prod.splits)

lemma collect_entry:
  assumes "l \<notin> set post"
  shows "map_of (fst (collect str2f up im (pre @ l # post) locs lp)) l =
     Some (fst (location_step str2f up im l (foldl (last_payment_step str2f up) lp pre)))"
proof -
  obtain locs1 lp1 where c: "collect str2f up im pre locs lp = (locs1, lp1)"
    by (cases "collect str2f up im pre locs lp")
  then have lp1: "lp1 = foldl (last_payment_step str2f up) lp pre"
    using collect_last_payment[of str2f up im pre locs lp] by simp
  obtain ld lp2 where st: "location_step str2f up im l lp1 = (ld, lp2)"
    by (cases "location_step str2f up im l lp1")
  have "map_of (fst (collect str2f up im (pre @ l # post) locs lp)) l =
        map_of (fst (collect str2f up im post (AList.update l ld locs1) lp2)) l"
    using c st by (simp add: collect_append)
  also have "\<dots> = map_of (AList.update l ld locs1) l"
    using assms by (rule collect_map_of_other)
  also have "\<dots> = Some ld" by (simp add: update_conv')
  finally show ?thesis using st lp1 by simp
qed

section \<open>The last-payment candidate\<close>

text \<open>
  The first record of a payment-history body: the body is an object whose
  \<^verbatim>\<open>"results"\<close> is a non-empty list starting with an object.
\<close>

definition first_record :: "json \<Rightarrow> (string \<times> json) list option" where
  "first_record history =
     (case history of
        JObj kvs \<Rightarrow>
          (case map_of kvs ''results'' of
             Some (JArr (JObj rec # recs)) \<Rightarrow> Some rec
           | _ \<Rightarrow> None)
      | _ \<Rightarrow> None)"

text \<open>\<^verbatim>\<open>latest.get("amount", 0)\<close> and \<^verbatim>\<open>latest.get("date", "")\<close>.\<close>

definition record_amount :: "(string \<times> json) list \<Rightarrow> json" where
  "record_amount rec = (case map_of rec ''amount'' of None \<Rightarrow> JInt 0 | Some v \<Rightarrow> v)"

definition record_date :: "(string \<times> json) list \<Rightarrow> json" where
  "record_date rec = (case map_of rec ''date'' of None \<Rightarrow> JStr [] | Some v \<Rightarrow> v)"

text \<open>
  The candidate a location supplies: its history fetch succeeds, the body has a first
  record, and the amount of that record (0 when the key is absent) converts to a float.
\<close>

definition payment_candidate ::
  "(string \<Rightarrow> real option) \<Rightarrow> upstream \<Rightarrow> string \<Rightarrow> last_payment option" where
  "payment_candidate str2f up lid =
     (case fetch_payment_history up lid of
        Inl e \<Rightarrow> None
      | Inr history \<Rightarrow>
          (case first_record history of
             None \<Rightarrow> None
           | Some rec \<Rightarrow>
               (case py_float str2f (record_amount rec) of
                  Inl e \<Rightarrow> None
                | Inr a \<Rightarrow> Some \<lparr>amount = a, date = record_date rec, location_id = lid\<rparr>)))"

text \<open>The candidate of the first location, in the order given, that supplies one.\<close>

definition first_candidate ::
  "(string \<Rightarrow> real option) \<Rightarrow> upstream \<Rightarrow> string list \<Rightarrow> last_payment option" where
  "first_candidate str2f up ids =
     (case List.find (\<lambda>l. payment_candidate str2f up l \<noteq> None) ids of
        None \<Rightarrow> None
      | Some l \<Rightarrow> payment_candidate str2f up l)"

lemma first_record_SomeD:
  "first_record h = Some rec \<Longrightarrow>
   \<exists>kvs recs. h = JObj kvs \<and> map_of kvs ''results'' = Some (JArr (JObj rec # recs))"
  by (auto simp: first_record_def split: json.splits option.splits list.splits)

lemma last_payment_update_first_record:
  assumes "first_record h = Some rec"
  shows "last_payment_update str2f lid None h =
     (case py_float str2f (record_amount rec) of
        Inl e \<Rightarrow> Inl e
      | Inr a \<Rightarrow> Inr (Some \<lparr>amount = a, date = record_date rec, location_id = lid\<rparr>))"
proof -
  from first_record_SomeD[OF assms] obtain kvs recs where
    h: "h = JObj kvs" and r: "map_of kvs ''results'' = Some (JArr (JObj rec # recs))"
    by blast
  show ?thesis
    by (simp add: h r last_payment_update_def record_amount_def record_date_def
        split: option.splits sum.splits)
qed

lemma last_payment_update_no_record:
  assumes "first_record h = None"
  shows "last_payment_update str2f lid None h \<noteq> Inr (Some p)"
proof (cases h)
  case (JObj kvs)
  show ?thesis
  proof (cases "map_of kvs ''results''")
    case None
    with JObj show ?thesis by (simp add: last_payment_update_def)
  next
    case (Some r)
    show ?thesis
    proof (cases r)
      case (JArr xs)
      show ?thesis
      proof (cases xs)
        case Nil
        with JObj Some JArr show ?thesis by (simp add: last_payment_update_def)
      next
        case (Cons x ys)
        with assms JObj Some JArr have "\<forall>rec. x \<noteq> JObj rec"
          by (auto simp: first_record_def)
        then have "\<And>k d. py_get x k d = Inl AttributeError" by (cases x) auto
        with JObj Some JArr Cons show ?thesis by (simp add: last_payment_update_def)
      qed
    next
      case (JStr str)
      with JObj Some show ?thesis
        by (cases str) (simp_all add: last_payment_update_def)
    qed (use JObj Some in \<open>simp_all add: last_payment_update_def\<close>)
  qed
qed (simp_all add: last_payment_update_def)

lemma last_payment_update_Some:
  "last_payment_update str2f lid (Some p) h = Inr lp1 \<Longrightarrow> lp1 = Some p"
  by (auto simp: last_payment_update_def split: sum.splits if_splits)

lemma last_payment_step_Some:
  "last_payment_step str2f up (Some p) lid = Some p"
  by (auto simp: last_payment_step_def payment_history_field_def
      dest: last_payment_update_Some split: sum.splits)

lemma last_payment_step_None:
  "last_payment_step str2f up None lid = payment_candidate str2f up lid"
proof (cases "fetch_payment_history up lid")
  case (Inl e)
  then show ?thesis
    by (simp add: last_payment_step_def payment_history_field_def payment_candidate_def)
next
  case (Inr h)
  show ?thesis
  proof (cases "first_record h")
    case None
    have "snd (case last_payment_update str2f lid None h of
                 Inl e \<Rightarrow> (JNull, None) | Inr lp1 \<Rightarrow> (h, lp1)) = None"
      using last_payment_update_no_record[OF None, of str2f lid]
      by (cases "last_payment_update str2f lid None h") auto
    with Inr None show ?thesis
      by (simp add: last_payment_step_def payment_history_field_def payment_candidate_def)
  next
    case (Some rec)
    with Inr show ?thesis
      by (simp add: last_payment_step_def payment_history_field_def payment_candidate_def
          last_payment_update_first_record split: sum.splits)
  qed
qed

lemma foldl_last_payment_Some:
  "foldl (last_payment_step str2f up) (Some p) ids = Some p"
  by (induction ids) (simp_all add: last_payment_step_Some)

lemma foldl_last_payment_None:
  "foldl (last_payment_step str2f up) None ids = first_candidate str2f up ids"
proof (induction ids)
  case Nil
  then show ?case by (simp add: first_candidate_def)
next
  case (Cons l ls)
  show ?case
  proof (cases "payment_candidate str2f up l")
    case None
    with Cons show ?thesis by (simp add: last_payment_step_None first_candidate_def)
  next
    case (Some p)
    then show ?thesis
      by (simp add: last_payment_step_None first_candidate_def foldl_last_payment_Some)
  qed
qed

lemma collect_all_alt:
  "collect_all str2f up s =
     \<lparr>locations = fst (collect str2f up (location_info s) (location_ids s) [] None),
      summary = build_summary (length (location_ids s))
        (snd (collect str2f up (location_info s) (location_ids s) [] None))\<rparr>"
  by (simp add: collect_all_def split: prod.splits)

lemma collect_all_last_payment:
  "summary (collect_all str2f up s) =
     build_summary (length (location_ids s)) (first_candidate str2f up (location_ids s))"
  by (simp add: collect_all_alt collect_last_payment foldl_last_payment_None)

lemma first_candidate_Cons:
  "first_candidate str2f up (l # ls) =
     (case payment_candidate str2f up l of
        None \<Rightarrow> first_candidate str2f up ls
      | Some p \<Rightarrow> Some p)"
  by (simp add: first_candidate_def split: option.splits)

lemma first_candidate_append:
  "first_candidate str2f up (xs @ ys) =
     (case first_candidate str2f up xs of
        None \<Rightarrow> first_candidate str2f up ys
      | Some p \<Rightarrow> Some p)"
  by (induction xs) (simp_all add: first_candidate_Cons first_candidate_def split: option.splits)

text \<open>
  Claim C4, as the code has it. The three \<^verbatim>\<open>last_payment_*\<close> fields of the summary are
  the amount, the date and the location id of the candidate of the first location, in
  the order of the location ids, that supplies one; they are absent when no location
  does.
\<close>

theorem summary_last_payment:
  assumes "fst (get_data str2f up s) = Inr snap"
  shows "last_payment_amount (summary snap) =
           map_option amount (first_candidate str2f up (location_ids (snd (get_data str2f up s)))) \<and>
         last_payment_date (summary snap) =
           map_option date (first_candidate str2f up (location_ids (snd (get_data str2f up s)))) \<and>
         last_payment_location_id (summary snap) =
           map_option location_id
             (first_candidate str2f up (location_ids (snd (get_data str2f up s))))"
proof -
  let ?s' = "snd (get_data str2f up s)"
  from assms have "get_data str2f up s = (Inr snap, ?s')" by (simp add: prod_eq_iff)
  then have "snap = collect_all str2f up ?s'" by (rule get_data_snapshot)
  then show ?thesis
    by (simp add: collect_all_last_payment build_summary_def split: option.splits)
qed

lemma py_float_zero: "py_float str2f (JInt 0) = Inr 0"
proof -
  have "(2::int) ^ 970 < 2 ^ 1024" by (rule power_strict_increasing) simp_all
  then show ?thesis by simp
qed

lemma location_entry:
  assumes "distinct (location_ids s)" and "location_ids s = pre @ l # post"
  shows "map_of (locations (collect_all str2f up s)) l =
     Some (fst (location_step str2f up (location_info s) l (first_candidate str2f up pre)))"
proof -
  from assms have "l \<notin> set post" by auto
  from collect_entry[OF this, of str2f up "location_info s" pre "[]" None] assms(2)
  show ?thesis
    by (simp add: collect_all_alt foldl_last_payment_None)
qed

lemma first_candidate_none:
  "(\<forall>l\<in>set ids. payment_candidate str2f up l = None) \<Longrightarrow> first_candidate str2f up ids = None"
  by (induction ids) (auto simp: first_candidate_def)

text \<open>
  Claim C10. Let a location's history fetch succeed with a body that has a first record,
  and let no earlier location supply a candidate. If the record has an amount that
  \<^verbatim>\<open>float\<close> rejects, the location's \<open>payment_history\<close> field in the snapshot is null.
  If the record has no amount key, the field holds the body, and the candidate, with
  amount 0, is the one in the summary.
\<close>

theorem unconvertible_amount_nulls_history:
  assumes "reachable s" and "fst (get_data str2f up s) = Inr snap"
    and "location_ids (snd (get_data str2f up s)) = pre @ l # post"
    and "\<forall>l'\<in>set pre. payment_candidate str2f up l' = None"
    and "fetch_payment_history up l = Inr h"
    and "first_record h = Some rec"
  shows "(\<forall>a e. map_of rec ''amount'' = Some a \<and> py_float str2f a = Inl e \<longrightarrow>
            map_option payment_history (map_of (locations snap) l) = Some JNull) \<and>
         (map_of rec ''amount'' = None \<longrightarrow>
            map_option payment_history (map_of (locations snap) l) = Some h \<and>
            payment_candidate str2f up l =
              Some \<lparr>amount = 0, date = record_date rec, location_id = l\<rparr> \<and>
            last_payment_amount (summary snap) = Some 0 \<and>
            last_payment_location_id (summary snap) = Some l)"
proof -
  let ?s' = "snd (get_data str2f up s)"
  from assms(1) have "reachable ?s'" by (rule reachable_get_data)
  then have d: "distinct (location_ids ?s')" by (rule reachable_distinct)
  from assms(2) have "get_data str2f up s = (Inr snap, ?s')" by (simp add: prod_eq_iff)
  then have snap: "snap = collect_all str2f up ?s'" by (rule get_data_snapshot)
  have none: "first_candidate str2f up pre = None"
    using assms(4) by (rule first_candidate_none)
  have entry: "map_of (locations snap) l =
     Some (fst (location_step str2f up (location_info ?s') l None))"
    using location_entry[OF d assms(3), of str2f up] snap none by simp
  have upd: "last_payment_update str2f l None h =
     (case py_float str2f (record_amount rec) of
        Inl e \<Rightarrow> Inl e
      | Inr a \<Rightarrow> Inr (Some \<lparr>amount = a, date = record_date rec, location_id = l\<rparr>))"
    using assms(6) by (rule last_payment_update_first_record)
  have 1: "\<forall>a e. map_of rec ''amount'' = Some a \<and> py_float str2f a = Inl e \<longrightarrow>
            map_option payment_history (map_of (locations snap) l) = Some JNull"
    using entry upd assms(5)
    by (auto simp: location_step_def payment_history_field_def record_amount_def Let_def
        split: prod.splits)
  have 2: "map_of rec ''amount'' = None \<longrightarrow>
            map_option payment_history (map_of (locations snap) l) = Some h \<and>
            payment_candidate str2f up l =
              Some \<lparr>amount = 0, date = record_date rec, location_id = l\<rparr> \<and>
            last_payment_amount (summary snap) = Some 0 \<and>
            last_payment_location_id (summary snap) = Some l"
  proof
    assume a: "map_of rec ''amount'' = None"
    then have f: "py_float str2f (record_amount rec) = Inr 0"
      by (simp add: record_amount_def py_float_zero)
    have c: "payment_candidate str2f up l =
              Some \<lparr>amount = 0, date = record_date rec, location_id = l\<rparr>"
      using assms(5,6) f by (simp add: payment_candidate_def)
    have fc: "first_candidate str2f up (location_ids ?s') =
          Some \<lparr>amount = 0, date = record_date rec, location_id = l\<rparr>"
      using assms(3) none c by (simp add: first_candidate_append first_candidate_Cons)
    have ph: "map_option payment_history (map_of (locations snap) l) = Some h"
      using entry upd assms(5) f
      by (auto simp: location_step_def payment_history_field_def Let_def split: prod.splits)
    show "map_option payment_history (map_of (locations snap) l) = Some h \<and>
            payment_candidate str2f up l =
              Some \<lparr>amount = 0, date = record_date rec, location_id = l\<rparr> \<and>
            last_payment_amount (summary snap) = Some 0 \<and>
            last_payment_location_id (summary snap) = Some l"
      using ph c fc snap by (simp add: collect_all_last_payment build_summary_def)
  qed
  from 1 2 show ?thesis by blast
qed

lemma collect_all_keys:
  assumes "distinct (location_ids s)"
  shows "map fst (locations (collect_all str2f up s)) = location_ids s"
  using collect_keys[OF assms, of "[]" str2f up "location_info s" None]
  by (simp add: collect_all_alt)

section \<open>One failing fetch\<close>

text \<open>The three resources fetched per location, their fetchers and their fields.\<close>

datatype resource = Pending | History | Counters

definition fetch_resource :: "upstream \<Rightarrow> resource \<Rightarrow> string \<Rightarrow> py_error + json" where
  "fetch_resource up k lid =
     (case k of
        Pending \<Rightarrow> fetch_pending_payments up lid
      | History \<Rightarrow> fetch_payment_history up lid
      | Counters \<Rightarrow> fetch_counters up lid)"

definition resource_field :: "resource \<Rightarrow> location_data \<Rightarrow> json" where
  "resource_field k ld =
     (case k of
        Pending \<Rightarrow> pending_payments ld
      | History \<Rightarrow> payment_history ld
      | Counters \<Rightarrow> counters ld)"

text \<open>
  A fetched body has the expected shape when the statements that follow the fetch inside
  the same \<^verbatim>\<open>try\<close> block do not raise on it. Nothing follows the counters fetch.
\<close>

definition body_conforms ::
  "(string \<Rightarrow> real option) \<Rightarrow> resource \<Rightarrow> string \<Rightarrow> json \<Rightarrow> bool" where
  "body_conforms str2f k lid body =
     (case k of
        Pending \<Rightarrow> pending_amount_check body = Inr ()
      | History \<Rightarrow>
          (case last_payment_update str2f lid None body of Inl e \<Rightarrow> False | Inr lp \<Rightarrow> True)
      | Counters \<Rightarrow> True)"

lemma last_payment_update_conforms:
  assumes "last_payment_update str2f lid None h = Inr x"
  shows "\<exists>y. last_payment_update str2f lid lp h = Inr y"
proof (cases lp)
  case None
  with assms show ?thesis by simp
next
  case (Some p)
  with assms show ?thesis
    by (auto simp: last_payment_update_def split: sum.splits if_splits)
qed

lemma payment_history_field_fetched:
  assumes "fetch_payment_history up lid = Inr h" and "body_conforms str2f History lid h"
  shows "fst (payment_history_field str2f up lid lp) = h"
proof -
  from assms(2) obtain x where "last_payment_update str2f lid None h = Inr x"
    by (auto simp: body_conforms_def split: sum.splits)
  from last_payment_update_conforms[OF this, of lp] obtain y where
    "last_payment_update str2f lid lp h = Inr y" by blast
  with assms(1) show ?thesis by (simp add: payment_history_field_def)
qed

lemma location_step_fields:
  "fst (location_step str2f up im lid lp) =
     \<lparr>info = im lid, pending_payments = pending_payments_field up lid,
      payment_history = fst (payment_history_field str2f up lid lp),
      counters = counters_field up lid\<rparr>"
  by (simp add: location_step_def Let_def split: prod.splits)

lemma resource_field_failed:
  assumes "fetch_resource up k lid = Inl e"
  shows "resource_field k (fst (location_step str2f up im lid lp)) = JNull"
  using assms
  by (cases k)
     (simp_all add: fetch_resource_def resource_field_def location_step_fields
        pending_payments_field_def payment_history_field_def counters_field_def)

lemma resource_field_fetched:
  assumes "fetch_resource up k lid = Inr v" and "body_conforms str2f k lid v"
  shows "resource_field k (fst (location_step str2f up im lid lp)) = v"
proof (cases k)
  case Pending
  with assms show ?thesis
    by (simp add: fetch_resource_def resource_field_def location_step_fields
        pending_payments_field_def body_conforms_def)
next
  case History
  with assms payment_history_field_fetched[of up lid v str2f lp] show ?thesis
    by (simp add: fetch_resource_def resource_field_def location_step_fields)
next
  case Counters
  with assms show ?thesis
    by (simp add: fetch_resource_def resource_field_def location_step_fields
        counters_field_def)
qed

text \<open>
  Claim C3, as the code has it. Let a poll not fail in authentication, let one fetch
  fail for one of its locations, and let every other fetch succeed with a body of the
  expected shape. Then the poll returns a snapshot with an entry for every location, in
  order; in it the field of the failed fetch is null and every other field holds the
  fetched body.
\<close>

theorem single_fetch_failure_isolated:
  assumes "reachable s"
    and "authenticated s \<or> (\<exists>b. fst (authenticate up s) = Inr b)"
    and "location_ids (snd (get_data str2f up s)) = ids"
    and "l0 \<in> set ids"
    and "fetch_resource up k0 l0 = Inl e"
    and "\<forall>l\<in>set ids. \<forall>k. (l, k) \<noteq> (l0, k0) \<longrightarrow>
           (\<exists>v. fetch_resource up k l = Inr v \<and> body_conforms str2f k l v)"
  shows "\<exists>snap. fst (get_data str2f up s) = Inr snap \<and>
           map fst (locations snap) = ids \<and>
           length (locations snap) = length ids \<and>
           (\<forall>l\<in>set ids. \<exists>ld. map_of (locations snap) l = Some ld \<and>
              (\<forall>k. resource_field k ld =
                 (if (l, k) = (l0, k0) then JNull
                  else (case fetch_resource up k l of Inr v \<Rightarrow> v | Inl e' \<Rightarrow> JNull))))"
proof -
  let ?s' = "snd (get_data str2f up s)"
  have "\<not> (\<exists>e'. fst (get_data str2f up s) = Inl e')"
    using assms(2) by (auto simp: get_data_raises_iff)
  then obtain snap where r: "fst (get_data str2f up s) = Inr snap"
    by (cases "fst (get_data str2f up s)") auto
  then have "get_data str2f up s = (Inr snap, ?s')" by (simp add: prod_eq_iff)
  then have snap: "snap = collect_all str2f up ?s'" by (rule get_data_snapshot)
  from assms(1) have "reachable ?s'" by (rule reachable_get_data)
  then have d: "distinct (location_ids ?s')" by (rule reachable_distinct)
  from collect_all_keys[OF d, of str2f up] snap assms(3)
  have keys: "map fst (locations snap) = ids" by simp
  then have "length (map fst (locations snap)) = length ids" by simp
  then have len: "length (locations snap) = length ids" by simp
  have each: "\<exists>ld. map_of (locations snap) l = Some ld \<and>
              (\<forall>k. resource_field k ld =
                 (if (l, k) = (l0, k0) then JNull
                  else (case fetch_resource up k l of Inr v \<Rightarrow> v | Inl e' \<Rightarrow> JNull)))"
    if l: "l \<in> set ids" for l
  proof -
    from l obtain pre post where sp: "ids = pre @ l # post" by (auto dest: split_list)
    let ?ld = "fst (location_step str2f up (location_info ?s') l (first_candidate str2f up pre))"
    have m: "map_of (locations snap) l = Some ?ld"
      using location_entry[OF d, of pre l post str2f up] sp assms(3) snap by simp
    have "resource_field k ?ld =
           (if (l, k) = (l0, k0) then JNull
            else (case fetch_resource up k l of Inr v \<Rightarrow> v | Inl e' \<Rightarrow> JNull))" for k
    proof (cases "(l, k) = (l0, k0)")
      case True
      with assms(5) show ?thesis by (simp add: resource_field_failed)
    next
      case False
      with assms(6) l obtain v where
        "fetch_resource up k l = Inr v" "body_conforms str2f k l v" by blast
      with False show ?thesis by (auto simp: resource_field_fetched)
    qed
    with m show ?thesis by blast
  qed
  from r keys len each show ?thesis by blast
qed

section \<open>A concrete portal\<close>

text \<open>
  The instance of \<open>str2f\<close> used in the examples: unsigned decimal numerals
  \<^verbatim>\<open>digits\<close> or \<^verbatim>\<open>digits.digits\<close>. (\<^verbatim>\<open>float\<close> accepts more: signs, exponents,
  surrounding blanks, \<^verbatim>\<open>inf\<close>, \<^verbatim>\<open>nan\<close>.)
\<close>

definition digits_value :: "string \<Rightarrow> nat" where
  "digits_value ds = foldl (\<lambda>n c. 10 * n + (of_char c - 48)) 0 ds"

definition plain_decimal :: "string \<Rightarrow> real option" where
  "plain_decimal s =
     (let ip = takeWhile is_digit s in
      if ip = [] then None
      else (case dropWhile is_digit s of
              [] \<Rightarrow> Some (real (digits_value ip))
            | c # fp \<Rightarrow>
                if c = CHR ''.'' \<and> fp \<noteq> [] \<and> list_all is_digit fp
                then Some (real (digits_value (ip @ fp)) / 10 ^ length fp)
                else None))"

lemma plain_decimal_862: "plain_decimal ''862.12'' = Some 862.12"
  by (simp add: plain_decimal_def digits_value_def is_digit_def)

lemma plain_decimal_abc: "plain_decimal ''abc'' = None"
  by (simp add: plain_decimal_def digits_value_def is_digit_def)

text \<open>
  The dashboard of the specification's scenario, and a portal that accepts the login
  and serves it; the three API responses are parameters.
\<close>

definition scenario_dashboard :: string where
  "scenario_dashboard =
     ''<li data-code='' @ [dquote] @ ''16835'' @ [dquote] @ ''>Str. X, ap. 12, Iasi</li>'' @
     ''<li data-code='' @ [dquote] @ ''17012'' @ [dquote] @ ''>Str. X, ap. S4, Iasi</li>''"

definition portal ::
  "(string \<Rightarrow> api_response) \<Rightarrow> (string \<Rightarrow> api_response) \<Rightarrow> (string \<Rightarrow> api_response) \<Rightarrow>
     upstream" where
  "portal p h c =
     \<lparr>login_page = Inr \<lparr>status = 200, resp_cookies = [''PHPSESSID'' \<mapsto> ''s1'']\<rparr>,
      login_submit = Inr \<lparr>status = 302, resp_cookies = [''adminis'' \<mapsto> ''abc123'']\<rparr>,
      dashboard = Inr (200, Inr scenario_dashboard),
      pending_payments_api = p,
      payments_history_api = h,
      counters_api = c\<rparr>"

definition info_16835 :: location_info where
  "info_16835 = \<lparr>name = ''Str. X, ap. 12, Iasi'', loc_id = ''16835'', apartment = Some ''12'',
                  type = Some Apartment, association_id = None\<rparr>"

definition info_17012 :: location_info where
  "info_17012 = \<lparr>name = ''Str. X, ap. S4, Iasi'', loc_id = ''17012'', apartment = Some ''S4'',
                  type = Some Parking, association_id = None\<rparr>"

lemma findall_scenario:
  "findall_data_code scenario_dashboard =
     [(''16835'', ''Str. X, ap. 12, Iasi''), (''17012'', ''Str. X, ap. S4, Iasi'')]"
  by (simp add: scenario_dashboard_def match_data_code_def dquote_def is_digit_def)

lemma search_assoc_scenario: "search_data_assoc scenario_dashboard = None"
  by (simp add: scenario_dashboard_def match_data_assoc_def dquote_def)

lemma parse_label_12: "parse_label ''Str. X, ap. 12, Iasi'' = Inr (Some ''12'', Apartment)"
  by (simp add: parse_label_def split_py_def index_py_def)

lemma parse_label_S4: "parse_label ''Str. X, ap. S4, Iasi'' = Inr (Some ''S4'', Parking)"
  by (simp add: parse_label_def split_py_def index_py_def)

lemma strip_12: "strip ''Str. X, ap. 12, Iasi'' = ''Str. X, ap. 12, Iasi''"
  by (simp add: strip_def is_space_def)

lemma strip_S4: "strip ''Str. X, ap. S4, Iasi'' = ''Str. X, ap. S4, Iasi''"
  by (simp add: strip_def is_space_def)

lemma discovery_scenario:
  "extract_location_ids (Inr (200, Inr scenario_dashboard)) Map.empty =
     ([''16835'', ''17012''], [''16835'' \<mapsto> info_16835, ''17012'' \<mapsto> info_17012])"
  by (simp add: extract_location_ids_def findall_scenario search_assoc_scenario
      parse_label_12 parse_label_S4 strip_12 strip_S4 info_16835_def info_17012_def)

text \<open>The state after the first poll of such a portal.\<close>

definition scenario_state :: api_state where
  "scenario_state =
     \<lparr>cookies = [''PHPSESSID'' \<mapsto> ''s1'', ''adminis'' \<mapsto> ''abc123''],
      authenticated = True,
      location_ids = [''16835'', ''17012''],
      location_info = [''16835'' \<mapsto> info_16835, ''17012'' \<mapsto> info_17012]\<rparr>"

lemma authenticate_portal:
  "authenticate (portal p h c) init_state =
     (Inr True, init_state\<lparr>cookies := [''PHPSESSID'' \<mapsto> ''s1'', ''adminis'' \<mapsto> ''abc123''],
                           authenticated := True\<rparr>)"
  by (simp add: authenticate_def portal_def init_state_def)

lemma get_data_portal:
  "get_data str2f (portal p h c) init_state =
     (Inr (collect_all str2f (portal p h c) scenario_state), scenario_state)"
  by (simp add: get_data_def authenticate_portal)
     (simp add: init_state_def portal_def discovery_scenario scenario_state_def Let_def)

section \<open>The claims about the poll\<close>

text \<open>
  Claim C8. Whenever a poll returns a snapshot, \<open>location_count\<close> is the number of
  entries of its \<open>locations\<close> mapping, whose keys are the client's location ids in
  order, and \<open>total_pending\<close> is 0.
\<close>

theorem summary_counts_locations:
  assumes "reachable s" and "fst (get_data str2f up s) = Inr snap"
  shows "location_count (summary snap) = length (locations snap) \<and>
         map fst (locations snap) = location_ids (snd (get_data str2f up s)) \<and>
         total_pending (summary snap) = 0"
proof -
  let ?s' = "snd (get_data str2f up s)"
  from assms(1) have "reachable ?s'" by (rule reachable_get_data)
  then have d: "distinct (location_ids ?s')" by (rule reachable_distinct)
  from assms(2) have "get_data str2f up s = (Inr snap, ?s')" by (simp add: prod_eq_iff)
  then have snap: "snap = collect_all str2f up ?s'" by (rule get_data_snapshot)
  obtain locs lp where
    c: "collect str2f up (location_info ?s') (location_ids ?s') [] None = (locs, lp)"
    by (cases "collect str2f up (location_info ?s') (location_ids ?s') [] None")
  have k: "map fst locs = location_ids ?s'"
    using collect_keys[OF d, of "[]" str2f up "location_info ?s'" None] c by simp
  then have "length (map fst locs) = length (location_ids ?s')" by simp
  then have l: "length locs = length (location_ids ?s')" by simp
  show ?thesis
    using k l snap c
    by (simp add: collect_all_def build_summary_def split: option.splits)
qed

text \<open>
  Claim C9. With an authenticated session and the same upstream responses, a poll
  returns a snapshot, and a second poll right after it returns the same snapshot.
\<close>

theorem poll_idempotent:
  assumes "authenticated s"
  shows "\<exists>snap. fst (get_data str2f up s) = Inr snap \<and>
           fst (get_data str2f up (snd (get_data str2f up s))) = Inr snap"
proof (cases "location_ids s = []")
  case False
  with assms have "get_data str2f up s = (Inr (collect_all str2f up s), s)"
    by (simp add: get_data_def)
  then show ?thesis by simp
next
  case True
  obtain ids im where ex: "extract_location_ids (dashboard up) (location_info s) = (ids, im)"
    by (cases "extract_location_ids (dashboard up) (location_info s)")
  then have ids: "ids = discovered_ids (dashboard up)"
    using extract_location_ids_ids[of "dashboard up" "location_info s"] by simp
  let ?s1 = "s\<lparr>location_ids := ids, location_info := im\<rparr>"
  show ?thesis
  proof (cases "ids = []")
    case False
    with True assms ex have
      "get_data str2f up s = (Inr (collect_all str2f up ?s1), ?s1)"
      by (simp add: get_data_def Let_def)
    moreover from False assms have
      "get_data str2f up ?s1 = (Inr (collect_all str2f up ?s1), ?s1)"
      by (simp add: get_data_def)
    ultimately show ?thesis by simp
  next
    case e: True
    with True assms ex have 1: "get_data str2f up s = (Inr empty_snapshot, ?s1)"
      by (simp add: get_data_def Let_def)
    obtain ids2 im2 where ex2: "extract_location_ids (dashboard up) im = (ids2, im2)"
      by (cases "extract_location_ids (dashboard up) im")
    then have "ids2 = discovered_ids (dashboard up)"
      using extract_location_ids_ids[of "dashboard up" im] by simp
    with ids e have "ids2 = []" by simp
    with e assms ex2 have "fst (get_data str2f up ?s1) = Inr empty_snapshot"
      by (simp add: get_data_def Let_def)
    with 1 show ?thesis by simp
  qed
qed

text \<open>
  Claim C7. Discovery returns the empty sequence, and leaves the metadata as it was,
  when the markup has no match of the pattern (the empty markup included), when the
  body cannot be read, when the status is not 200 and when the request fails; it
  returns a list in every case. A poll that reaches discovery with no location and
  discovers none returns the empty snapshot.
\<close>

theorem no_locations_empty_snapshot:
  "(findall_data_code html = [] \<longrightarrow>
      extract_location_ids (Inr (200, Inr html)) im = ([], im)) \<and>
   extract_location_ids (Inr (200, Inl e)) im = ([], im) \<and>
   (st \<noteq> 200 \<longrightarrow> extract_location_ids (Inr (st, body)) im = ([], im)) \<and>
   extract_location_ids (Inl e) im = ([], im) \<and>
   ((authenticated s \<or> (\<exists>b. fst (authenticate up s) = Inr b)) \<and>
    location_ids s = [] \<and>
    fst (extract_location_ids (dashboard up) (location_info s)) = [] \<longrightarrow>
      fst (get_data str2f up s) = Inr empty_snapshot)"
proof -
  have a: "location_ids (snd (authenticate up s)) = location_ids s"
          "location_info (snd (authenticate up s)) = location_info s"
    by (simp_all add: authenticate_keeps_locations)
  have 1: "findall_data_code html = [] \<longrightarrow>
      extract_location_ids (Inr (200, Inr html)) im = ([], im)"
    by (cases "search_data_assoc html") (simp_all add: extract_location_ids_def)
  have 2: "(authenticated s \<or> (\<exists>b. fst (authenticate up s) = Inr b)) \<and>
    location_ids s = [] \<and>
    fst (extract_location_ids (dashboard up) (location_info s)) = [] \<longrightarrow>
      fst (get_data str2f up s) = Inr empty_snapshot"
    using a
    by (cases "authenticate up s")
       (auto simp: get_data_def Let_def split: prod.splits sum.splits)
  from 1 2 show ?thesis by (simp add: extract_location_ids_def)
qed

text \<open>
  Claim C1, as the code has it. The poll raises exactly when it starts unauthenticated
  and \<^verbatim>\<open>authenticate\<close> raises, which it does exactly when the login page request fails
  or has a status other than 200, or the login submission fails in the transport; the
  poll then ends with that exception in the state \<^verbatim>\<open>authenticate\<close> left, before
  discovery. When \<^verbatim>\<open>authenticate\<close> returns false the poll does not raise: it goes on
  unauthenticated and returns a snapshot.
\<close>

theorem poll_raises_iff_authenticate_raises:
  "(fst (get_data str2f up s) = Inl e \<longleftrightarrow>
      \<not> authenticated s \<and> fst (authenticate up s) = Inl e) \<and>
   (fst (authenticate up s) = Inl e \<longleftrightarrow>
      login_page up = Inl e \<or>
      (\<exists>r. login_page up = Inr r \<and> status r \<noteq> 200 \<and> e = LoginPageFailed (status r)) \<or>
      (\<exists>r. login_page up = Inr r \<and> status r = 200 \<and> login_submit up = Inl e)) \<and>
   (\<not> authenticated s \<and> fst (authenticate up s) = Inl e \<longrightarrow>
      get_data str2f up s = (Inl e, snd (authenticate up s))) \<and>
   (\<not> authenticated s \<and> fst (authenticate up s) = Inr False \<longrightarrow>
      (\<exists>snap. fst (get_data str2f up s) = Inr snap) \<and>
      \<not> authenticated (snd (get_data str2f up s)))"
proof -
  have 2: "fst (authenticate up s) = Inl e \<longleftrightarrow>
      login_page up = Inl e \<or>
      (\<exists>r. login_page up = Inr r \<and> status r \<noteq> 200 \<and> e = LoginPageFailed (status r)) \<or>
      (\<exists>r. login_page up = Inr r \<and> status r = 200 \<and> login_submit up = Inl e)"
    by (auto simp: authenticate_def Let_def split: sum.splits)
  have 3: "\<not> authenticated s \<and> fst (authenticate up s) = Inl e \<longrightarrow>
      get_data str2f up s = (Inl e, snd (authenticate up s))"
    by (cases "authenticate up s") (auto simp: get_data_def)
  have na: "fst (authenticate up s) = Inr False \<Longrightarrow> \<not> authenticated s \<Longrightarrow>
      \<not> authenticated (snd (authenticate up s))"
    by (auto simp: authenticate_def Let_def split: sum.splits if_splits)
  have 4: "\<not> authenticated s \<and> fst (authenticate up s) = Inr False \<longrightarrow>
      (\<exists>snap. fst (get_data str2f up s) = Inr snap) \<and>
      \<not> authenticated (snd (get_data str2f up s))"
    using na
    by (cases "authenticate up s")
       (auto simp: get_data_def Let_def split: prod.splits)
  from get_data_raises_iff[of str2f up s e] 2 3 4 show ?thesis by blast
qed

text \<open>
  Claim C5, as the code has it. When the login page is served with status 200 and the
  login submission is answered, \<^verbatim>\<open>authenticate\<close> does not raise and returns true exactly
  when the status of the answer is 302 and the cookies, merged from the session, the
  login page and the answer, contain \<^verbatim>\<open>adminis\<close>; then it sets the authenticated flag.
\<close>

theorem authenticate_result:
  assumes "login_page up = Inr r1" and "status r1 = 200" and "login_submit up = Inr r2"
  shows "fst (authenticate up s) =
           Inr (status r2 = 302 \<and>
                ''adminis'' \<in> dom (cookies s ++ resp_cookies r1 ++ resp_cookies r2)) \<and>
         cookies (snd (authenticate up s)) = cookies s ++ resp_cookies r1 ++ resp_cookies r2 \<and>
         authenticated (snd (authenticate up s)) =
           (authenticated s \<or>
            (status r2 = 302 \<and>
             ''adminis'' \<in> dom (cookies s ++ resp_cookies r1 ++ resp_cookies r2)))"
  using assms by (auto simp: authenticate_def Let_def)

section \<open>The scenario of the specification\<close>

text \<open>
  The responses of the specification's scenario: pending payments without values, one
  payment record for location 16835 and none for 17012, counters that are not JSON.
\<close>

definition spec_pending :: "string \<Rightarrow> api_response" where
  "spec_pending lid =
     Inr (200, Inr (JObj [(''error'', JInt 0), (''allowPayments'', JBool False),
                          (''results'', JObj [(''owner'', JNull), (''assoc'', JNull)])]))"

definition history_16835 :: json where
  "history_16835 =
     JObj [(''results'',
        JArr [JObj [(''amount'', JStr ''862.12''), (''date'', JStr ''30.01.2026''),
                    (''details'',
                       JArr [JObj [(''name'', JStr ''Fond rulment''), (''amount'', JInt 50)],
                             JObj [(''name'', JStr ''Intretinere''),
                                   (''amount'', JFloat 812.12)]])]])]"

definition spec_history :: "string \<Rightarrow> api_response" where
  "spec_history lid =
     (if lid = ''16835'' then Inr (200, Inr history_16835)
      else Inr (200, Inr (JObj [(''results'', JArr [])])))"

definition spec_counters :: "string \<Rightarrow> api_response" where
  "spec_counters lid = Inr (200, Inl ContentTypeError)"

definition spec_portal :: upstream where
  "spec_portal = portal spec_pending spec_history spec_counters"

lemma portal_fetchers:
  "fetch_pending_payments (portal p h c) l = fetch (p l)"
  "fetch_payment_history (portal p h c) l = fetch (h l)"
  "fetch_counters (portal p h c) l = fetch (c l)"
  by (simp_all add: portal_def fetch_pending_payments_def fetch_payment_history_def
      fetch_counters_def)

lemma first_record_history_16835:
  "first_record history_16835 =
     Some [(''amount'', JStr ''862.12''), (''date'', JStr ''30.01.2026''),
           (''details'',
              JArr [JObj [(''name'', JStr ''Fond rulment''), (''amount'', JInt 50)],
                    JObj [(''name'', JStr ''Intretinere''), (''amount'', JFloat 812.12)]])]"
  by (simp add: first_record_def history_16835_def)

lemma candidate_spec_16835:
  "payment_candidate plain_decimal spec_portal ''16835'' =
     Some \<lparr>amount = 862.12, date = JStr ''30.01.2026'', location_id = ''16835''\<rparr>"
  by (simp add: payment_candidate_def spec_portal_def portal_fetchers spec_history_def
      fetch_def first_record_history_16835 record_amount_def record_date_def
      plain_decimal_862)

text \<open>
  The scenario of claim C4: the summary has the amount 862.12, the date 30.01.2026 and
  the location id 16835.
\<close>

theorem summary_last_payment_witness:
  "fst (get_data plain_decimal spec_portal init_state) =
     Inr (collect_all plain_decimal spec_portal scenario_state) \<and>
   last_payment_amount (summary (collect_all plain_decimal spec_portal scenario_state)) =
     Some 862.12 \<and>
   last_payment_date (summary (collect_all plain_decimal spec_portal scenario_state)) =
     Some (JStr ''30.01.2026'') \<and>
   last_payment_location_id (summary (collect_all plain_decimal spec_portal scenario_state)) =
     Some ''16835''"
proof -
  have g: "get_data plain_decimal spec_portal init_state =
     (Inr (collect_all plain_decimal spec_portal scenario_state), scenario_state)"
    unfolding spec_portal_def by (rule get_data_portal)
  then have r: "fst (get_data plain_decimal spec_portal init_state) =
     Inr (collect_all plain_decimal spec_portal scenario_state)" by simp
  have fc: "first_candidate plain_decimal spec_portal [''16835'', ''17012''] =
     Some \<lparr>amount = 862.12, date = JStr ''30.01.2026'', location_id = ''16835''\<rparr>"
    by (simp add: first_candidate_Cons candidate_spec_16835)
  from summary_last_payment [OF r] g fc r show ?thesis
    by (simp add: scenario_state_def)
qed

theorem summary_counts_locations_witness:
  "reachable init_state \<and>
   fst (get_data plain_decimal spec_portal init_state) =
     Inr (collect_all plain_decimal spec_portal scenario_state) \<and>
   location_count (summary (collect_all plain_decimal spec_portal scenario_state)) = 2 \<and>
   length (locations (collect_all plain_decimal spec_portal scenario_state)) = 2 \<and>
   total_pending (summary (collect_all plain_decimal spec_portal scenario_state)) = 0"
proof -
  have g: "get_data plain_decimal spec_portal init_state =
     (Inr (collect_all plain_decimal spec_portal scenario_state), scenario_state)"
    unfolding spec_portal_def by (rule get_data_portal)
  then have r: "fst (get_data plain_decimal spec_portal init_state) =
     Inr (collect_all plain_decimal spec_portal scenario_state)" by simp
  have n: "location_count (summary (collect_all plain_decimal spec_portal scenario_state)) = 2"
    by (simp add: collect_all_last_payment build_summary_def scenario_state_def
        split: option.splits)
  from summary_counts_locations [OF reachable_init r] n r reachable_init show ?thesis
    by simp
qed

theorem poll_idempotent_witness:
  "authenticated scenario_state \<and>
   fst (get_data plain_decimal spec_portal scenario_state) =
     Inr (collect_all plain_decimal spec_portal scenario_state) \<and>
   fst (get_data plain_decimal spec_portal
          (snd (get_data plain_decimal spec_portal scenario_state))) =
     Inr (collect_all plain_decimal spec_portal scenario_state)"
proof -
  have a: "authenticated scenario_state" by (simp add: scenario_state_def)
  have g: "fst (get_data plain_decimal spec_portal scenario_state) =
     Inr (collect_all plain_decimal spec_portal scenario_state)"
    by (simp add: get_data_def scenario_state_def)
  from poll_idempotent [OF a, of plain_decimal spec_portal] a g show ?thesis
    by auto
qed

section \<open>Portals without locations, without a login page, rejecting the login\<close>

definition no_locations_page :: string where
  "no_locations_page = ''<html><body><ul class=locations></ul></body></html>''"

definition login_form_page :: string where
  "login_form_page = ''<html><body><form id=login></form></body></html>''"

definition empty_portal :: upstream where
  "empty_portal =
     (portal spec_pending spec_history spec_counters)
       \<lparr>dashboard := Inr (200, Inr no_locations_page)\<rparr>"

lemma findall_empty_page:
  "findall_data_code no_locations_page = []"
  by (simp add: no_locations_page_def match_data_code_def)

theorem no_locations_empty_snapshot_witness:
  "findall_data_code no_locations_page = [] \<and>
   extract_location_ids
     (Inr (200, Inr no_locations_page)) Map.empty =
     ([], Map.empty) \<and>
   extract_location_ids (Inr (503, Inr scenario_dashboard)) Map.empty = ([], Map.empty) \<and>
   fst (authenticate empty_portal init_state) = Inr True \<and>
   location_ids init_state = [] \<and>
   fst (get_data plain_decimal empty_portal init_state) = Inr empty_snapshot"
proof -
  have a: "fst (authenticate empty_portal init_state) = Inr True"
    by (simp add: authenticate_def empty_portal_def portal_def init_state_def)
  have l: "location_ids init_state = []" by (simp add: init_state_def)
  have d: "fst (extract_location_ids (dashboard empty_portal) (location_info init_state)) = []"
    by (simp add: extract_location_ids_ids discovered_ids_def empty_portal_def
        findall_empty_page)
  from no_locations_empty_snapshot
    [of no_locations_page Map.empty ClientError
        503 "Inr scenario_dashboard" init_state empty_portal plain_decimal]
    findall_empty_page a l d
  show ?thesis by auto
qed

definition down_portal :: upstream where
  "down_portal =
     (portal spec_pending spec_history spec_counters)
       \<lparr>login_page := Inr \<lparr>status = 503, resp_cookies = Map.empty\<rparr>\<rparr>"

definition rejecting_portal :: upstream where
  "rejecting_portal =
     (portal spec_pending spec_history spec_counters)
       \<lparr>login_submit := Inr \<lparr>status = 200, resp_cookies = Map.empty\<rparr>,
        dashboard := Inr (200, Inr login_form_page)\<rparr>"

lemma findall_login_form:
  "findall_data_code login_form_page = []"
  by (simp add: login_form_page_def match_data_code_def)

lemma authenticate_rejecting:
  "authenticate rejecting_portal init_state =
     (Inr False, init_state\<lparr>cookies := [''PHPSESSID'' \<mapsto> ''s1'']\<rparr>)"
  by (simp add: authenticate_def rejecting_portal_def portal_def init_state_def)

text \<open>
  Claim C1 as stated fails: when the portal answers the login submission with status 200,
  \<^verbatim>\<open>authenticate\<close> returns false, and the poll that started unauthenticated goes on to
  discovery and returns a snapshot instead of raising.
\<close>

theorem rejected_login_poll_returns_counterexample:
  "\<not> authenticated init_state \<and>
   fst (authenticate rejecting_portal init_state) = Inr False \<and>
   fst (get_data plain_decimal rejecting_portal init_state) = Inr empty_snapshot \<and>
   \<not> authenticated (snd (get_data plain_decimal rejecting_portal init_state))"
  by (simp add: get_data_def authenticate_rejecting Let_def)
     (simp add: init_state_def rejecting_portal_def portal_def extract_location_ids_def
        findall_login_form split: option.splits)

theorem poll_raises_iff_authenticate_raises_witness:
  "\<not> authenticated init_state \<and>
   login_page down_portal = Inr \<lparr>status = 503, resp_cookies = Map.empty\<rparr> \<and>
   fst (authenticate down_portal init_state) = Inl (LoginPageFailed 503) \<and>
   get_data plain_decimal down_portal init_state = (Inl (LoginPageFailed 503), init_state) \<and>
   fst (authenticate rejecting_portal init_state) = Inr False \<and>
   \<not> authenticated (snd (get_data plain_decimal rejecting_portal init_state))"
proof -
  have n: "\<not> authenticated init_state" by (simp add: init_state_def)
  have lp: "login_page down_portal = Inr \<lparr>status = 503, resp_cookies = Map.empty\<rparr>"
    by (simp add: down_portal_def)
  have a: "authenticate down_portal init_state = (Inl (LoginPageFailed 503), init_state)"
    by (simp add: authenticate_def down_portal_def)
  have r: "fst (authenticate rejecting_portal init_state) = Inr False"
    by (simp add: authenticate_rejecting)
  from poll_raises_iff_authenticate_raises
         [of plain_decimal down_portal init_state "LoginPageFailed 503"]
       poll_raises_iff_authenticate_raises
         [of plain_decimal rejecting_portal init_state "LoginPageFailed 503"]
       n lp a r
  show ?thesis by simp
qed

text \<open>
  The statuses of the redirection class of HTTP, in the words of the specification
  (an HTTP redirect status).
\<close>

definition http_redirect_status :: "nat \<Rightarrow> bool" where
  "http_redirect_status st = (300 \<le> st \<and> st < 400)"

definition see_other_portal :: upstream where
  "see_other_portal =
     (portal spec_pending spec_history spec_counters)
       \<lparr>login_submit := Inr \<lparr>status = 303, resp_cookies = [''adminis'' \<mapsto> ''abc123'']\<rparr>\<rparr>"

text \<open>
  Claim C5 as stated fails: the answer 303 is a redirect and the cookies contain
  \<^verbatim>\<open>adminis\<close>, yet \<^verbatim>\<open>authenticate\<close> returns false.
\<close>

theorem redirect_303_with_cookie_counterexample:
  "login_page see_other_portal = Inr \<lparr>status = 200, resp_cookies = [''PHPSESSID'' \<mapsto> ''s1'']\<rparr> \<and>
   login_submit see_other_portal =
     Inr \<lparr>status = 303, resp_cookies = [''adminis'' \<mapsto> ''abc123'']\<rparr> \<and>
   http_redirect_status 303 \<and>
   ''adminis'' \<in> dom (cookies (snd (authenticate see_other_portal init_state))) \<and>
   fst (authenticate see_other_portal init_state) = Inr False"
  by (simp add: authenticate_def see_other_portal_def portal_def init_state_def
      http_redirect_status_def)

theorem authenticate_result_witness:
  "login_page spec_portal = Inr \<lparr>status = 200, resp_cookies = [''PHPSESSID'' \<mapsto> ''s1'']\<rparr> \<and>
   login_submit spec_portal = Inr \<lparr>status = 302, resp_cookies = [''adminis'' \<mapsto> ''abc123'']\<rparr> \<and>
   fst (authenticate spec_portal init_state) = Inr True \<and>
   ''adminis'' \<in> dom (cookies (snd (authenticate spec_portal init_state))) \<and>
   authenticated (snd (authenticate spec_portal init_state)) \<and>
   fst (authenticate rejecting_portal init_state) = Inr False"
proof -
  have 1: "login_page spec_portal =
             Inr \<lparr>status = 200, resp_cookies = [''PHPSESSID'' \<mapsto> ''s1'']\<rparr>"
    by (simp add: spec_portal_def portal_def)
  have 2: "login_submit spec_portal =
             Inr \<lparr>status = 302, resp_cookies = [''adminis'' \<mapsto> ''abc123'']\<rparr>"
    by (simp add: spec_portal_def portal_def)
  have 3: "login_page rejecting_portal =
             Inr \<lparr>status = 200, resp_cookies = [''PHPSESSID'' \<mapsto> ''s1'']\<rparr>"
    by (simp add: rejecting_portal_def portal_def)
  have 4: "login_submit rejecting_portal = Inr \<lparr>status = 200, resp_cookies = Map.empty\<rparr>"
    by (simp add: rejecting_portal_def portal_def)
  from authenticate_result [OF 1 _ 2, of init_state]
       authenticate_result [OF 3 _ 4, of init_state] 1 2
  show ?thesis by (simp add: init_state_def)
qed

section \<open>Portals with one failing fetch and with unusual payment records\<close>

definition counters_one_fails :: "string \<Rightarrow> api_response" where
  "counters_one_fails lid =
     (if lid = ''16835'' then Inr (500, Inr JNull)
      else Inr (200, Inr (JObj [(''counters'', JArr [])])))"

definition history_null_amount :: json where
  "history_null_amount =
     JObj [(''results'', JArr [JObj [(''amount'', JNull), (''date'', JStr ''15.01.2026'')]])]"

definition history_100 :: json where
  "history_100 =
     JObj [(''results'', JArr [JObj [(''amount'', JInt 100), (''date'', JStr ''30.01.2026'')]])]"

definition null_amount_history :: "string \<Rightarrow> api_response" where
  "null_amount_history lid =
     (if lid = ''16835'' then Inr (200, Inr history_null_amount)
      else Inr (200, Inr history_100))"

definition history_abc :: json where
  "history_abc =
     JObj [(''results'', JArr [JObj [(''amount'', JStr ''abc''), (''date'', JStr ''30.01.2026'')]])]"

definition history_no_amount :: json where
  "history_no_amount =
     JObj [(''results'', JArr [JObj [(''date'', JStr ''30.01.2026'')]])]"

lemma all_resource: "(\<forall>k. P k) \<longleftrightarrow> P Pending \<and> P History \<and> P Counters"
  by (metis resource.exhaust)

lemma scenario_entry_16835:
  "map_of (locations (collect_all str2f up scenario_state)) ''16835'' =
     Some (fst (location_step str2f up (location_info scenario_state) ''16835'' None))"
proof -
  have d: "distinct (location_ids scenario_state)" by (simp add: scenario_state_def)
  have l: "location_ids scenario_state = [] @ ''16835'' # [''17012'']"
    by (simp add: scenario_state_def)
  from location_entry[OF d l, of str2f up] show ?thesis
    by (simp add: first_candidate_def)
qed

lemma pending_check_spec:
  "pending_amount_check
     (JObj [(''error'', JInt 0), (''allowPayments'', JBool False),
            (''results'', JObj [(''owner'', JNull), (''assoc'', JNull)])]) = Inr ()"
  by (simp add: pending_amount_check_def)

lemma update_history_16835:
  "last_payment_update plain_decimal ''16835'' None history_16835 =
     Inr (Some \<lparr>amount = 862.12, date = JStr ''30.01.2026'', location_id = ''16835''\<rparr>)"
  by (simp add: last_payment_update_first_record first_record_history_16835
      record_amount_def record_date_def plain_decimal_862)

lemma update_history_empty:
  "last_payment_update str2f lid lp (JObj [(''results'', JArr [])]) = Inr lp"
  by (simp add: last_payment_update_def)

lemma update_history_null_amount:
  "last_payment_update str2f lid lp history_null_amount =
     (if lp = None then Inl TypeError else Inr lp)"
  by (simp add: last_payment_update_def history_null_amount_def)

theorem single_fetch_failure_isolated_witness:
  "reachable init_state \<and>
   fetch_resource (portal spec_pending spec_history counters_one_fails) Counters ''16835'' =
     Inl (FetchFailed 500) \<and>
   fst (get_data plain_decimal (portal spec_pending spec_history counters_one_fails) init_state) =
     Inr (collect_all plain_decimal (portal spec_pending spec_history counters_one_fails)
            scenario_state) \<and>
   map fst (locations (collect_all plain_decimal
     (portal spec_pending spec_history counters_one_fails) scenario_state)) =
     [''16835'', ''17012''] \<and>
   map_option counters (map_of (locations (collect_all plain_decimal
     (portal spec_pending spec_history counters_one_fails) scenario_state)) ''16835'') =
     Some JNull \<and>
   map_option payment_history (map_of (locations (collect_all plain_decimal
     (portal spec_pending spec_history counters_one_fails) scenario_state)) ''16835'') =
     Some history_16835"
proof -
  let ?P = "portal spec_pending spec_history counters_one_fails"
  let ?X = "collect_all plain_decimal ?P scenario_state"
  have g: "get_data plain_decimal ?P init_state = (Inr ?X, scenario_state)"
    by (rule get_data_portal)
  have a: "authenticated init_state \<or> (\<exists>b. fst (authenticate ?P init_state) = Inr b)"
    by (auto simp: authenticate_portal)
  have i: "location_ids (snd (get_data plain_decimal ?P init_state)) = [''16835'', ''17012'']"
    by (simp add: g scenario_state_def)
  have m: "''16835'' \<in> set [''16835'', ''17012'']" by simp
  have f: "fetch_resource ?P Counters ''16835'' = Inl (FetchFailed 500)"
    by (simp add: fetch_resource_def portal_fetchers counters_one_fails_def fetch_def)
  have h: "fetch_resource ?P History ''16835'' = Inr history_16835"
    by (simp add: fetch_resource_def portal_fetchers spec_history_def fetch_def)
  have o: "\<forall>l\<in>set [''16835'', ''17012'']. \<forall>k. (l, k) \<noteq> (''16835'', Counters) \<longrightarrow>
           (\<exists>v. fetch_resource ?P k l = Inr v \<and> body_conforms plain_decimal k l v)"
    by (simp add: all_resource fetch_resource_def portal_fetchers spec_pending_def
        spec_history_def counters_one_fails_def fetch_def body_conforms_def
        pending_check_spec update_history_16835 update_history_empty)
  from single_fetch_failure_isolated [OF reachable_init a i m f o] obtain snap where
    w: "fst (get_data plain_decimal ?P init_state) = Inr snap \<and>
        map fst (locations snap) = [''16835'', ''17012''] \<and>
        length (locations snap) = length [''16835'', ''17012''] \<and>
        (\<forall>l\<in>set [''16835'', ''17012'']. \<exists>ld. map_of (locations snap) l = Some ld \<and>
          (\<forall>k. resource_field k ld =
             (if (l, k) = (''16835'', Counters) then JNull
              else (case fetch_resource ?P k l of Inr v \<Rightarrow> v | Inl e' \<Rightarrow> JNull))))" ..
  from w have s: "fst (get_data plain_decimal ?P init_state) = Inr snap"
    by (rule conjunct1)
  from w have k: "map fst (locations snap) = [''16835'', ''17012'']"
    by (elim conjE)
  from w have e: "\<forall>l\<in>set [''16835'', ''17012'']. \<exists>ld. map_of (locations snap) l = Some ld \<and>
          (\<forall>k. resource_field k ld =
             (if (l, k) = (''16835'', Counters) then JNull
              else (case fetch_resource ?P k l of Inr v \<Rightarrow> v | Inl e' \<Rightarrow> JNull)))"
    by (elim conjE)
  from s g have x: "snap = ?X" by simp
  from e m have "\<exists>ld. map_of (locations snap) ''16835'' = Some ld \<and>
          (\<forall>k. resource_field k ld =
             (if (''16835'', k) = (''16835'', Counters) then JNull
              else (case fetch_resource ?P k ''16835'' of Inr v \<Rightarrow> v | Inl e' \<Rightarrow> JNull)))"
    by (rule bspec)
  then obtain ld where
    ld: "map_of (locations snap) ''16835'' = Some ld" and
    fs: "\<forall>k. resource_field k ld =
             (if (''16835'', k) = (''16835'', Counters) then JNull
              else (case fetch_resource ?P k ''16835'' of Inr v \<Rightarrow> v | Inl e' \<Rightarrow> JNull))"
    by (elim exE conjE)
  from fs have "resource_field Counters ld = JNull" by simp
  then have c: "counters ld = JNull" by (simp add: resource_field_def)
  from fs h have "resource_field History ld = history_16835" by simp
  then have p: "payment_history ld = history_16835" by (simp add: resource_field_def)
  from g x k ld c p f reachable_init show ?thesis by simp
qed

text \<open>
  Claim C3 as stated fails: the counters fetch of location 16835 is the only fetch that
  fails, yet the \<open>payment_history\<close> field of that location is null and not the body
  fetched, whose first record has the amount null.
\<close>

theorem fetched_history_nulled_counterexample:
  "fetch_counters (portal spec_pending null_amount_history counters_one_fails) ''16835'' =
     Inl (FetchFailed 500) \<and>
   fetch_counters (portal spec_pending null_amount_history counters_one_fails) ''17012'' =
     Inr (JObj [(''counters'', JArr [])]) \<and>
   fetch_pending_payments (portal spec_pending null_amount_history counters_one_fails) ''16835'' =
     Inr (JObj [(''error'', JInt 0), (''allowPayments'', JBool False),
                (''results'', JObj [(''owner'', JNull), (''assoc'', JNull)])]) \<and>
   fetch_pending_payments (portal spec_pending null_amount_history counters_one_fails) ''17012'' =
     Inr (JObj [(''error'', JInt 0), (''allowPayments'', JBool False),
                (''results'', JObj [(''owner'', JNull), (''assoc'', JNull)])]) \<and>
   fetch_payment_history (portal spec_pending null_amount_history counters_one_fails) ''16835'' =
     Inr history_null_amount \<and>
   fetch_payment_history (portal spec_pending null_amount_history counters_one_fails) ''17012'' =
     Inr history_100 \<and>
   history_null_amount \<noteq> JNull \<and>
   fst (get_data plain_decimal (portal spec_pending null_amount_history counters_one_fails)
          init_state) =
     Inr (collect_all plain_decimal (portal spec_pending null_amount_history counters_one_fails)
            scenario_state) \<and>
   map_option payment_history (map_of (locations (collect_all plain_decimal
     (portal spec_pending null_amount_history counters_one_fails) scenario_state)) ''16835'') =
     Some JNull"
  by (simp add: get_data_portal scenario_entry_16835 location_step_fields portal_fetchers
      counters_one_fails_def spec_pending_def null_amount_history_def fetch_def
      payment_history_field_def update_history_null_amount)
     (simp add: history_null_amount_def)

definition abc_history :: "string \<Rightarrow> api_response" where
  "abc_history lid =
     (if lid = ''16835'' then Inr (200, Inr history_abc) else Inr (200, Inr history_100))"

definition no_amount_history :: "string \<Rightarrow> api_response" where
  "no_amount_history lid =
     (if lid = ''16835'' then Inr (200, Inr history_no_amount) else Inr (200, Inr history_100))"

lemma candidate_null_amount:
  "payment_candidate plain_decimal (portal spec_pending null_amount_history spec_counters)
     ''16835'' = None"
  by (simp add: payment_candidate_def portal_fetchers null_amount_history_def fetch_def
      first_record_def history_null_amount_def record_amount_def)

lemma candidate_100:
  "payment_candidate plain_decimal (portal spec_pending null_amount_history spec_counters)
     ''17012'' =
   Some \<lparr>amount = 100, date = JStr ''30.01.2026'', location_id = ''17012''\<rparr>"
proof -
  have "(2::int) ^ 970 + 100 < 2 ^ 1024"
  proof -
    have "(100::int) < 2 ^ 970"
      using power_strict_increasing[of 7 970 "2::int"] by simp
    moreover have "(2::int) ^ 970 + 2 ^ 970 \<le> 2 ^ 1024"
      using power_increasing[of 971 1024 "2::int"] by simp
    ultimately show ?thesis by linarith
  qed
  then show ?thesis
    by (simp add: payment_candidate_def portal_fetchers null_amount_history_def fetch_def
        first_record_def history_100_def record_amount_def record_date_def)
qed

text \<open>
  Claim C4 as stated fails: the history fetch of location 16835, the first in order,
  succeeds with one record, whose amount is null; the summary names location 17012.
\<close>

theorem first_location_with_record_skipped_counterexample:
  "location_ids scenario_state = [''16835'', ''17012''] \<and>
   fetch_payment_history (portal spec_pending null_amount_history spec_counters) ''16835'' =
     Inr history_null_amount \<and>
   first_record history_null_amount =
     Some [(''amount'', JNull), (''date'', JStr ''15.01.2026'')] \<and>
   fst (get_data plain_decimal (portal spec_pending null_amount_history spec_counters)
          init_state) =
     Inr (collect_all plain_decimal (portal spec_pending null_amount_history spec_counters)
            scenario_state) \<and>
   last_payment_location_id (summary (collect_all plain_decimal
     (portal spec_pending null_amount_history spec_counters) scenario_state)) = Some ''17012'' \<and>
   last_payment_date (summary (collect_all plain_decimal
     (portal spec_pending null_amount_history spec_counters) scenario_state)) =
     Some (JStr ''30.01.2026'')"
proof -
  have fc: "first_candidate plain_decimal
              (portal spec_pending null_amount_history spec_counters)
              [''16835'', ''17012''] =
            Some \<lparr>amount = 100, date = JStr ''30.01.2026'', location_id = ''17012''\<rparr>"
    by (simp add: first_candidate_Cons candidate_null_amount candidate_100)
  have ids: "location_ids scenario_state = [''16835'', ''17012'']"
    by (simp add: scenario_state_def)
  have fr: "first_record history_null_amount =
              Some [(''amount'', JNull), (''date'', JStr ''15.01.2026'')]"
    by (simp add: first_record_def history_null_amount_def)
  show ?thesis
    by (simp add: ids fr get_data_portal collect_all_last_payment fc build_summary_def
        portal_fetchers null_amount_history_def fetch_def)
qed

theorem unconvertible_amount_nulls_history_witness:
  "reachable init_state \<and>
   fetch_payment_history (portal spec_pending abc_history spec_counters) ''16835'' =
     Inr history_abc \<and>
   py_float plain_decimal (JStr ''abc'') = Inl ValueError \<and>
   map_option payment_history (map_of (locations (collect_all plain_decimal
     (portal spec_pending abc_history spec_counters) scenario_state)) ''16835'') = Some JNull \<and>
   fetch_payment_history (portal spec_pending no_amount_history spec_counters) ''16835'' =
     Inr history_no_amount \<and>
   map_option payment_history (map_of (locations (collect_all plain_decimal
     (portal spec_pending no_amount_history spec_counters) scenario_state)) ''16835'') =
     Some history_no_amount \<and>
   last_payment_amount (summary (collect_all plain_decimal
     (portal spec_pending no_amount_history spec_counters) scenario_state)) = Some 0 \<and>
   last_payment_location_id (summary (collect_all plain_decimal
     (portal spec_pending no_amount_history spec_counters) scenario_state)) = Some ''16835''"
proof -
  let ?A = "portal spec_pending abc_history spec_counters"
  let ?B = "portal spec_pending no_amount_history spec_counters"
  let ?XA = "collect_all plain_decimal ?A scenario_state"
  let ?XB = "collect_all plain_decimal ?B scenario_state"
  have gA: "get_data plain_decimal ?A init_state = (Inr ?XA, scenario_state)"
    by (rule get_data_portal)
  have gB: "get_data plain_decimal ?B init_state = (Inr ?XB, scenario_state)"
    by (rule get_data_portal)
  have rA: "fst (get_data plain_decimal ?A init_state) = Inr ?XA" using gA by simp
  have rB: "fst (get_data plain_decimal ?B init_state) = Inr ?XB" using gB by simp
  have iA: "location_ids (snd (get_data plain_decimal ?A init_state)) =
              [] @ ''16835'' # [''17012'']"
    using gA by (simp add: scenario_state_def)
  have iB: "location_ids (snd (get_data plain_decimal ?B init_state)) =
              [] @ ''16835'' # [''17012'']"
    using gB by (simp add: scenario_state_def)
  have nA: "\<forall>l'\<in>set []. payment_candidate plain_decimal ?A l' = None" by simp
  have nB: "\<forall>l'\<in>set []. payment_candidate plain_decimal ?B l' = None" by simp
  have fA: "fetch_payment_history ?A ''16835'' = Inr history_abc"
    by (simp add: portal_fetchers abc_history_def fetch_def)
  have fB: "fetch_payment_history ?B ''16835'' = Inr history_no_amount"
    by (simp add: portal_fetchers no_amount_history_def fetch_def)
  have cA: "first_record history_abc =
              Some [(''amount'', JStr ''abc''), (''date'', JStr ''30.01.2026'')]"
    by (simp add: first_record_def history_abc_def)
  have cB: "first_record history_no_amount = Some [(''date'', JStr ''30.01.2026'')]"
    by (simp add: first_record_def history_no_amount_def)
  have v: "py_float plain_decimal (JStr ''abc'') = Inl ValueError"
    by (simp add: plain_decimal_abc)
  from unconvertible_amount_nulls_history [OF reachable_init rA iA nA fA cA]
  have "\<forall>a e. map_of [(''amount'', JStr ''abc''), (''date'', JStr ''30.01.2026'')] ''amount'' =
            Some a \<and> py_float plain_decimal a = Inl e \<longrightarrow>
          map_option payment_history (map_of (locations ?XA) ''16835'') = Some JNull"
    by (rule conjunct1)
  then have "map_of [(''amount'', JStr ''abc''), (''date'', JStr ''30.01.2026'')] ''amount'' =
            Some (JStr ''abc'') \<and> py_float plain_decimal (JStr ''abc'') = Inl ValueError \<longrightarrow>
          map_option payment_history (map_of (locations ?XA) ''16835'') = Some JNull"
    by blast
  with v have 1: "map_option payment_history (map_of (locations ?XA) ''16835'') = Some JNull"
    by simp
  from unconvertible_amount_nulls_history [OF reachable_init rB iB nB fB cB]
  have 2: "map_option payment_history (map_of (locations ?XB) ''16835'') =
             Some history_no_amount \<and>
           last_payment_amount (summary ?XB) = Some 0 \<and>
           last_payment_location_id (summary ?XB) = Some ''16835''"
    by simp
  from reachable_init fA v 1 fB 2 show ?thesis by simp
qed

end
